theory Spec2Isabelle
  imports Main "HOL-Library.Word" "HOL-Library.Monad_Syntax"
begin

unbundle bit_operations_syntax

section \<open>The network probe of c-sentinel (\<^verbatim>\<open>src/net_probe.c\<close>)\<close>

text \<open>
  The development embeds \<^verbatim>\<open>net_probe.c\<close>: the port classifier, the address decoder,
  the inode-to-process correlator, the two socket-table parsers and the probe that
  drives them. C strings are \<^typ>\<open>string\<close> (the bytes before the terminating NUL),
  \<^verbatim>\<open>unsigned int\<close> is \<^typ>\<open>32 word\<close>, \<^verbatim>\<open>unsigned long\<close> is \<^typ>\<open>64 word\<close> (LP64 Linux),
  \<^verbatim>\<open>uint16_t\<close> is \<^typ>\<open>16 word\<close>; the \<^verbatim>\<open>int\<close> counters and \<^verbatim>\<open>pid_t\<close> are \<^typ>\<open>int\<close> (the
  counters only ever count stored entries, so they stay below the capacities). A function
  that writes through a pointer returns what it wrote; what a function reads from
  \<^verbatim>\<open>/proc\<close> is an argument, the \<open>world\<close>.
\<close>

subsection \<open>The C library calls the probe makes\<close>

text \<open>
  The probe reads text through \<^verbatim>\<open>fgets\<close>, scans it with \<^verbatim>\<open>sscanf\<close> and writes its
  fields with \<^verbatim>\<open>snprintf\<close>. These are modelled on strings, as glibc behaves in the
  C locale.
\<close>

definition newline :: char where
  "newline = CHR 0x0A"

definition NUL :: char where
  "NUL = CHR 0x00"

text \<open>What a \<^verbatim>\<open>char\<close> buffer holds when read as a C string: the bytes before the first NUL.\<close>

definition c_str :: "string \<Rightarrow> string" where
  "c_str buf = takeWhile (\<lambda>c. c \<noteq> NUL) buf"

definition isspace :: "char \<Rightarrow> bool" where
  "isspace c = (c = CHR '' '' \<or> (9 \<le> (of_char c :: nat) \<and> (of_char c :: nat) \<le> 13))"

definition isdigit :: "char \<Rightarrow> bool" where
  "isdigit c = (48 \<le> (of_char c :: nat) \<and> (of_char c :: nat) \<le> 57)"

definition isxdigit :: "char \<Rightarrow> bool" where
  "isxdigit c =
     (isdigit c
      \<or> (65 \<le> (of_char c :: nat) \<and> (of_char c :: nat) \<le> 70)
      \<or> (97 \<le> (of_char c :: nat) \<and> (of_char c :: nat) \<le> 102))"

text \<open>The value of a digit in base 10 or 16.\<close>

definition digit_val :: "char \<Rightarrow> nat" where
  "digit_val c =
     (if isdigit c then of_char c - 48
      else if 97 \<le> (of_char c :: nat) then of_char c - 87
      else of_char c - 55)"

definition digits_val :: "nat \<Rightarrow> string \<Rightarrow> nat" where
  "digits_val base ds = foldl (\<lambda>a c. base * a + digit_val c) 0 ds"

text \<open>\<^verbatim>\<open>%u\<close>, \<^verbatim>\<open>%lu\<close> and \<^verbatim>\<open>%d\<close> of \<^verbatim>\<open>printf\<close>: decimal, no padding.\<close>

fun show_nat :: "nat \<Rightarrow> string" where
  "show_nat n =
     (if n < 10 then [''0123456789'' ! n]
      else show_nat (n div 10) @ [''0123456789'' ! (n mod 10)])"

declare show_nat.simps [simp del]

definition show_int :: "int \<Rightarrow> string" where
  "show_int i = (if i < 0 then CHR ''-'' # show_nat (nat (- i)) else show_nat (nat i))"

text \<open>
  \<^verbatim>\<open>snprintf(buf, sz, ...)\<close> stores at most \<open>sz - 1\<close> bytes of the formatted text and
  a NUL; the function gives the C string left in \<open>buf\<close>. \<open>sz\<close> is always the \<^verbatim>\<open>sizeof\<close> of a
  character array here.
\<close>

definition snprintf :: "nat \<Rightarrow> string \<Rightarrow> string" where
  "snprintf sz s = take (sz - 1) s"

text \<open>
  \<^verbatim>\<open>fgets(buf, n, f)\<close> on the unread rest of a file: it reads at most \<open>n - 1\<close> bytes,
  stops after a newline, and returns \<^verbatim>\<open>NULL\<close> (\<open>None\<close>) at end of file. The result is
  the buffer and the rest of the file.
\<close>

fun fgets_take :: "nat \<Rightarrow> string \<Rightarrow> string \<times> string" where
  "fgets_take 0 s = ([], s)"
| "fgets_take (Suc k) [] = ([], [])"
| "fgets_take (Suc k) (c # cs) =
     (if c = newline then ([c], cs)
      else (c # fst (fgets_take k cs), snd (fgets_take k cs)))"

definition fgets :: "nat \<Rightarrow> string \<Rightarrow> (string \<times> string) option" where
  "fgets n s =
     (if n = 0 then None
      else if n = 1 then Some ([], s)
      else if s = [] then None
      else Some (fgets_take (n - 1) s))"

text \<open>
  The successive results of \<^verbatim>\<open>fgets(line, sizeof(line), f)\<close> with \<^verbatim>\<open>char line[512]\<close>, until
  it returns \<^verbatim>\<open>NULL\<close>: the lines of the file, a line of 512 bytes or more arriving in
  pieces.
\<close>

function read_lines :: "string \<Rightarrow> string list" where
  "read_lines s =
     (case fgets 512 s of
        None \<Rightarrow> []
      | Some (line, rest) \<Rightarrow> line # read_lines rest)"
  by pat_completeness auto
termination
proof (relation "measure length")
  show "wf (measure length)" by simp
next
  fix s :: string and x2 line rest
  assume a: "fgets 512 s = Some x2" and b: "(line, rest) = x2"
  have shrink: "length (snd (fgets_take (Suc k) t)) < length t" if "t \<noteq> []" for k t
    using that
  proof (induction k arbitrary: t)
    case 0
    then show ?case by (cases t) auto
  next
    case (Suc k)
    then obtain c cs where t: "t = c # cs" by (cases t) auto
    show ?case
    proof (cases "cs = []")
      case True
      then show ?thesis by (simp add: t)
    next
      case False
      from Suc.IH [OF False] show ?thesis by (simp add: t)
    qed
  qed
  from a b have "s \<noteq> []" and "rest = snd (fgets_take (Suc 510) s)"
    by (auto simp: fgets_def split: if_splits)
  with shrink [of s 510] show "(rest, s) \<in> measure length" by simp
qed

declare read_lines.simps [simp del]

subsubsection \<open>Conversions of \<^verbatim>\<open>sscanf\<close>\<close>

text \<open>
  Each directive takes the unread input and returns what it converted and the rest of
  the input, or \<open>None\<close> when it does not match. Values that do not fit the destination
  are stored as glibc stores them: \<^verbatim>\<open>strtoul\<close> saturates at \<^verbatim>\<open>ULONG_MAX\<close>, a minus sign
  negates, and \<^verbatim>\<open>%X\<close> keeps the low 32 bits.
\<close>

definition skip_ws :: "string \<Rightarrow> string" where
  "skip_ws s = dropWhile isspace s"

text \<open>A literal character of the format.\<close>

definition scan_lit :: "char \<Rightarrow> string \<Rightarrow> string option" where
  "scan_lit c s = (case s of [] \<Rightarrow> None | x # r \<Rightarrow> if x = c then Some r else None)"

text \<open>An optional sign.\<close>

definition scan_sign :: "string \<Rightarrow> bool \<times> string" where
  "scan_sign s =
     (case s of
        [] \<Rightarrow> (False, [])
      | x # r \<Rightarrow> if x = CHR ''-'' then (True, r)
                else if x = CHR ''+'' then (False, r)
                else (False, s))"

text \<open>\<^verbatim>\<open>strtoul\<close> on the collected sign and digits.\<close>

definition strtoul_value :: "bool \<Rightarrow> nat \<Rightarrow> 64 word" where
  "strtoul_value neg v =
     (if v \<ge> 2 ^ 64 then - 1
      else if neg then - (of_nat v)
      else of_nat v)"

text \<open>
  \<^verbatim>\<open>%*d\<close> and \<^verbatim>\<open>%lu\<close>: white space, an optional sign, one or more decimal digits. The value
  is the one \<^verbatim>\<open>%lu\<close> stores; \<^verbatim>\<open>%*d\<close> stores nothing, only the rest of the input counts.
\<close>

definition scan_dec :: "string \<Rightarrow> (64 word \<times> string) option" where
  "scan_dec s =
     (let (neg, s1) = scan_sign (skip_ws s);
          ds = takeWhile isdigit s1
      in if ds = [] then None
         else Some (strtoul_value neg (digits_val 10 ds), dropWhile isdigit s1))"

text \<open>
  \<^verbatim>\<open>%X\<close>: white space, an optional sign, an optional \<^verbatim>\<open>0x\<close> or \<^verbatim>\<open>0X\<close>, hexadecimal digits.
  After a \<^verbatim>\<open>0x\<close> prefix glibc has already read the digit \<^verbatim>\<open>0\<close>, so no further digit is
  needed.
\<close>

definition scan_hex :: "string \<Rightarrow> (32 word \<times> string) option" where
  "scan_hex s =
     (let (neg, s1) = scan_sign (skip_ws s);
          (prefixed, s2) =
             (case s1 of
                a # b # r \<Rightarrow> if a = CHR ''0'' \<and> (b = CHR ''x'' \<or> b = CHR ''X'')
                             then (True, r) else (False, s1)
              | _ \<Rightarrow> (False, s1));
          ds = takeWhile isxdigit s2
      in if ds = [] \<and> \<not> prefixed then None
         else Some (ucast (strtoul_value neg (digits_val 16 ds)), dropWhile isxdigit s2))"

text \<open>\<^verbatim>\<open>%8[0-9A-Fa-f]\<close> and \<^verbatim>\<open>%32[0-9A-Fa-f]\<close>: one to \<open>width\<close> characters of the set.\<close>

definition scan_xdigits :: "nat \<Rightarrow> string \<Rightarrow> (string \<times> string) option" where
  "scan_xdigits width s =
     (let ds = takeWhile isxdigit (take width s)
      in if ds = [] then None else Some (ds, drop (length ds) s))"

text \<open>\<^verbatim>\<open>%*s\<close>: white space, then one or more characters that are not white space.\<close>

definition scan_word :: "string \<Rightarrow> string option" where
  "scan_word s =
     (let s1 = skip_ws s
      in if takeWhile (\<lambda>c. \<not> isspace c) s1 = [] then None
         else Some (dropWhile (\<lambda>c. \<not> isspace c) s1))"

text \<open>\<^verbatim>\<open>atoi\<close>: \<^verbatim>\<open>strtol\<close> in base 10, which saturates at the bounds of \<^verbatim>\<open>long\<close>, cut to \<^verbatim>\<open>int\<close>.\<close>

definition atoi :: "string \<Rightarrow> int" where
  "atoi s =
     (let (neg, s1) = scan_sign (skip_ws s);
          v = int (digits_val 10 (takeWhile isdigit s1));
          l = (if neg then max (- v) (- (2 ^ 63)) else min v (2 ^ 63 - 1))
      in sint (word_of_int l :: 32 word))"

subsubsection \<open>The format of a socket-table line\<close>

text \<open>The variables that one \<^verbatim>\<open>sscanf\<close> of a socket-table line assigns.\<close>

record scanned =
  local_addr_hex :: string
  local_port :: "32 word"
  remote_addr_hex :: string
  remote_port :: "32 word"
  state :: "32 word"
  inode :: "64 word"

text \<open>
  \<^verbatim>\<open>sscanf(line, "%*d: %8[0-9A-Fa-f]:%X %8[0-9A-Fa-f]:%X %X %*s %*s %*s %*d %*d %lu", ...)\<close>,
  with \<open>width\<close> 8 (and 32 in the format for \<^verbatim>\<open>tcp6\<close> and \<^verbatim>\<open>udp6\<close>). The result is
  \<open>Some\<close> exactly when the call returns 6, that is when every directive up to \<^verbatim>\<open>%lu\<close>
  matched; any other return value (fewer conversions, or \<^verbatim>\<open>EOF\<close>) is \<open>None\<close>.
\<close>

definition sscanf_fmt :: "nat \<Rightarrow> string \<Rightarrow> scanned option" where
  "sscanf_fmt width line = do {
     (_, s1) \<leftarrow> scan_dec line;
     s2 \<leftarrow> scan_lit (CHR '':'') s1;
     (la, s3) \<leftarrow> scan_xdigits width (skip_ws s2);
     s4 \<leftarrow> scan_lit (CHR '':'') s3;
     (lp, s5) \<leftarrow> scan_hex s4;
     (ra, s6) \<leftarrow> scan_xdigits width (skip_ws s5);
     s7 \<leftarrow> scan_lit (CHR '':'') s6;
     (rp, s8) \<leftarrow> scan_hex s7;
     (st, s9) \<leftarrow> scan_hex (skip_ws s8);
     s10 \<leftarrow> scan_word (skip_ws s9);
     s11 \<leftarrow> scan_word (skip_ws s10);
     s12 \<leftarrow> scan_word (skip_ws s11);
     (_, s13) \<leftarrow> scan_dec (skip_ws s12);
     (_, s14) \<leftarrow> scan_dec (skip_ws s13);
     (ino, _) \<leftarrow> scan_dec (skip_ws s14);
     Some \<lparr>local_addr_hex = la, local_port = lp, remote_addr_hex = ra,
           remote_port = rp, state = st, inode = ino\<rparr>
   }"

text \<open>The \<^verbatim>\<open>if (is_ipv6) ... else ...\<close> around the two \<^verbatim>\<open>sscanf\<close> calls.\<close>

definition sscanf_line :: "bool \<Rightarrow> string \<Rightarrow> scanned option" where
  "sscanf_line is_ipv6 line =
     (if is_ipv6 then sscanf_fmt 32 (c_str line) else sscanf_fmt 8 (c_str line))"

subsection \<open>What the probe reads: the files, directories and links of \<^verbatim>\<open>/proc\<close>\<close>

text \<open>
  The file system as one probe sees it: \<open>fopen\<close> gives the text of the file at a path
  (\<open>None\<close> when \<^verbatim>\<open>fopen\<close> returns \<^verbatim>\<open>NULL\<close>), \<open>opendir\<close> the entry names of a directory
  in the order \<^verbatim>\<open>readdir\<close> returns them (\<open>None\<close> when \<^verbatim>\<open>opendir\<close> fails), \<open>readlink\<close>
  the target of a symbolic link (\<open>None\<close> when \<^verbatim>\<open>readlink\<close> returns \<open>-1\<close>).
\<close>

record world =
  fopen :: "string \<Rightarrow> string option"
  opendir :: "string \<Rightarrow> string list option"
  readlink :: "string \<Rightarrow> string option"

subsection \<open>The declarations of \<^verbatim>\<open>sentinel.h\<close>\<close>

text \<open>
  \<^verbatim>\<open>sentinel.h\<close> declares the capacities \<^verbatim>\<open>MAX_LISTENERS\<close> and \<^verbatim>\<open>MAX_CONNECTIONS\<close> and the
  structures \<^verbatim>\<open>net_listener_t\<close>, \<^verbatim>\<open>net_connection_t\<close> and \<^verbatim>\<open>network_info_t\<close>. Its numbers
  are parameters here: the two capacities, the \<^verbatim>\<open>sizeof\<close> of each character array that
  \<^verbatim>\<open>net_probe.c\<close> writes with \<^verbatim>\<open>snprintf\<close>, and the width in bits of the port fields.
\<close>

record sentinel_h =
  MAX_LISTENERS :: nat
  MAX_CONNECTIONS :: nat
  sizeof_l_protocol :: nat
  sizeof_l_local_addr :: nat
  sizeof_l_state :: nat
  sizeof_l_process_name :: nat
  l_port_bits :: nat
  sizeof_c_protocol :: nat
  sizeof_c_local_addr :: nat
  sizeof_c_remote_addr :: nat
  sizeof_c_state :: nat
  sizeof_c_process_name :: nat
  c_port_bits :: nat

text \<open>\<^verbatim>\<open>net_listener_t\<close>, the fields that \<^verbatim>\<open>l->...\<close> names.\<close>

record net_listener =
  l_protocol :: string
  l_local_addr :: string
  l_local_port :: "32 word"
  l_state :: string
  l_pid :: int
  l_process_name :: string

text \<open>\<^verbatim>\<open>net_connection_t\<close>, the fields that \<^verbatim>\<open>c->...\<close> names.\<close>

record net_connection =
  c_protocol :: string
  c_local_addr :: string
  c_local_port :: "32 word"
  c_remote_addr :: string
  c_remote_port :: "32 word"
  c_state :: string
  c_pid :: int
  c_process_name :: string

text \<open>
  \<^verbatim>\<open>network_info_t\<close>. The arrays \<^verbatim>\<open>listeners[MAX_LISTENERS]\<close> and
  \<^verbatim>\<open>connections[MAX_CONNECTIONS]\<close> are lists of that length; the stored sequences are
  their first \<open>listener_count\<close> and \<open>connection_count\<close> slots.
\<close>

record network_info =
  listeners :: "net_listener list"
  listener_count :: int
  connections :: "net_connection list"
  connection_count :: int
  total_listening :: int
  total_established :: int
  unusual_port_count :: int

text \<open>The assignment of an \<^verbatim>\<open>unsigned int\<close> to a port field of the given width.\<close>

definition store_port :: "nat \<Rightarrow> 32 word \<Rightarrow> 32 word" where
  "store_port bits p = take_bit bits p"

text \<open>\<^verbatim>\<open>memset(net, 0, sizeof(network_info_t))\<close>: every byte of the structure is zero.\<close>

definition zero_listener :: net_listener where
  "zero_listener =
     \<lparr>l_protocol = [], l_local_addr = [], l_local_port = 0, l_state = [],
      l_pid = 0, l_process_name = []\<rparr>"

definition zero_connection :: net_connection where
  "zero_connection =
     \<lparr>c_protocol = [], c_local_addr = [], c_local_port = 0, c_remote_addr = [],
      c_remote_port = 0, c_state = [], c_pid = 0, c_process_name = []\<rparr>"

definition memset_zero :: "sentinel_h \<Rightarrow> network_info \<Rightarrow> network_info" where
  "memset_zero h net =
     \<lparr>listeners = replicate (MAX_LISTENERS h) zero_listener,
      listener_count = 0,
      connections = replicate (MAX_CONNECTIONS h) zero_connection,
      connection_count = 0,
      total_listening = 0,
      total_established = 0,
      unusual_port_count = 0\<rparr>"

text \<open>
  What the C code can do that has no value: reading the local \<^verbatim>\<open>addr\<close> of
  \<^verbatim>\<open>hex_to_ip\<close> when \<^verbatim>\<open>sscanf\<close> assigned nothing to it, and writing a slot outside an array.
\<close>

datatype fault = Uninitialised_Read | Out_Of_Bounds

subsection \<open>Port classifier\<close>

text \<open>The table \<^verbatim>\<open>common_ports[]\<close>, with its terminating sentinel \<^verbatim>\<open>0\<close>.\<close>

definition common_ports :: "16 word list" where
  "common_ports =
     [22, 25, 53, 80, 110, 143, 443, 465, 587, 993, 995,
      3306, 5432, 6379, 8080, 8443, 27017, 0]"

text \<open>
  The loop \<^verbatim>\<open>for (i = 0; common_ports[i] != 0; i++) if (common_ports[i] == port) return 1;\<close>
  as a recursion over the rest of the table: it stops at the sentinel. The table ends
  with the sentinel, so the first equation (running off the table) is never reached
  from \<open>common_ports\<close>.
\<close>

fun scan_common_ports :: "16 word list \<Rightarrow> 16 word \<Rightarrow> bool" where
  "scan_common_ports [] port = False"
| "scan_common_ports (c # cs) port =
     (if c = 0 then False
      else if c = port then True
      else scan_common_ports cs port)"

definition is_common_port :: "16 word \<Rightarrow> bool" where
  "is_common_port port =
     (if scan_common_ports common_ports port then True
      else if port \<ge> 32768 then True
      else False)"


subsection \<open>Address decoder\<close>

text \<open>
  \<^verbatim>\<open>hex_to_ip\<close> returns the string it leaves in \<^verbatim>\<open>ip\<close>. For IPv4 the local
  \<^verbatim>\<open>unsigned int addr\<close> has a value only when \<^verbatim>\<open>sscanf(hex, "%X", &addr)\<close> converted
  something.
\<close>

definition hex_to_ip :: "string \<Rightarrow> nat \<Rightarrow> bool \<Rightarrow> fault + string" where
  "hex_to_ip hex ip_len is_ipv6 =
     (if is_ipv6 then Inr (snprintf ip_len hex)
      else
        (case scan_hex hex of
           None \<Rightarrow> Inl Uninitialised_Read
         | Some (addr, _) \<Rightarrow>
             Inr (snprintf ip_len
                   (show_nat (unat (addr AND 0xFF)) @ ''.'' @
                    show_nat (unat (drop_bit 8 addr AND 0xFF)) @ ''.'' @
                    show_nat (unat (drop_bit 16 addr AND 0xFF)) @ ''.'' @
                    show_nat (unat (drop_bit 24 addr AND 0xFF))))))"

subsection \<open>Process names and the owner of a socket\<close>

text \<open>
  \<^verbatim>\<open>get_process_name\<close> returns the new content of \<^verbatim>\<open>name\<close>; the argument \<open>name\<close> is
  what the buffer held before, which stays when the file opens but \<^verbatim>\<open>fgets\<close> reads
  nothing.
\<close>

definition get_process_name :: "world \<Rightarrow> int \<Rightarrow> string \<Rightarrow> nat \<Rightarrow> string" where
  "get_process_name w pid name name_len =
     (let path = snprintf 64 (''/proc/'' @ show_int pid @ ''/comm'')
      in case fopen w path of
           Some f \<Rightarrow>
             (case fgets name_len f of
                Some (buf, _) \<Rightarrow> takeWhile (\<lambda>c. c \<noteq> newline) (c_str buf)
              | None \<Rightarrow> name)
         | None \<Rightarrow> snprintf name_len ''[unknown]'')"

definition inode_str :: "64 word \<Rightarrow> string" where
  "inode_str ino = snprintf 64 (''socket:['' @ show_nat (unat ino) @ '']'')"

text \<open>
  The inner loop of \<^verbatim>\<open>find_pid_for_inode\<close> over the entries of one \<^verbatim>\<open>/proc/<pid>/fd\<close>:
  \<open>True\<close> when it reaches \<^verbatim>\<open>return pid\<close>, \<open>False\<close> when \<^verbatim>\<open>readdir\<close> runs out.
\<close>

fun fd_loop :: "world \<Rightarrow> string \<Rightarrow> string \<Rightarrow> string list \<Rightarrow> bool" where
  "fd_loop w fd_path ino_str [] = False"
| "fd_loop w fd_path ino_str (d_name # rest) =
     (let path = snprintf 512 (fd_path @ ''/'' @ d_name)
      in case readlink w path of
           None \<Rightarrow> fd_loop w fd_path ino_str rest
         | Some target \<Rightarrow>
             (let len = min (length target) 511
              in if len > 0 \<and> c_str (take len target) = ino_str then True
                 else fd_loop w fd_path ino_str rest))"

text \<open>The outer loop over the entries of \<^verbatim>\<open>/proc\<close>.\<close>

fun proc_loop :: "world \<Rightarrow> string \<Rightarrow> string list \<Rightarrow> int" where
  "proc_loop w ino_str [] = 0"
| "proc_loop w ino_str (d_name # rest) =
     (case d_name of
        [] \<Rightarrow> proc_loop w ino_str rest
      | c # _ \<Rightarrow>
          if \<not> isdigit c then proc_loop w ino_str rest
          else
            (let pid = atoi d_name;
                 fd_path = snprintf 128 (''/proc/'' @ show_int pid @ ''/fd'')
             in case opendir w fd_path of
                  None \<Rightarrow> proc_loop w ino_str rest
                | Some fds \<Rightarrow>
                    if fd_loop w fd_path ino_str fds then pid
                    else proc_loop w ino_str rest))"

definition find_pid_for_inode :: "world \<Rightarrow> 64 word \<Rightarrow> int" where
  "find_pid_for_inode w ino =
     (case opendir w ''/proc'' of
        None \<Rightarrow> 0
      | Some entries \<Rightarrow> proc_loop w (inode_str ino) entries)"

subsection \<open>TCP state names\<close>

definition states :: "string list" where
  "states =
     [''UNKNOWN'', ''ESTABLISHED'', ''SYN_SENT'', ''SYN_RECV'', ''FIN_WAIT1'',
      ''FIN_WAIT2'', ''TIME_WAIT'', ''CLOSE'', ''CLOSE_WAIT'', ''LAST_ACK'',
      ''LISTEN'', ''CLOSING'']"

definition tcp_state_name :: "int \<Rightarrow> string" where
  "tcp_state_name st = (if st \<ge> 0 \<and> st \<le> 11 then states ! nat st else ''UNKNOWN'')"

subsection \<open>The socket-table parsers\<close>

text \<open>
  The body of the \<^verbatim>\<open>while (fgets(...))\<close> loop of \<^verbatim>\<open>parse_tcp_file\<close> on one line and the
  structure so far. A line that \<^verbatim>\<open>sscanf\<close> does not convert into six values takes the
  \<^verbatim>\<open>continue\<close>. The slot \<^verbatim>\<open>&net->listeners[net->listener_count]\<close> is written field by
  field; a slot outside the array is the fault \<open>Out_Of_Bounds\<close>, and an address that
  \<^verbatim>\<open>hex_to_ip\<close> cannot read is the fault it returns.
\<close>

definition tcp_line ::
  "sentinel_h \<Rightarrow> world \<Rightarrow> bool \<Rightarrow> string \<Rightarrow> network_info \<Rightarrow> fault + network_info" where
  "tcp_line h w is_ipv6 line net =
     (case sscanf_line is_ipv6 line of
        None \<Rightarrow> Inr net
      | Some f \<Rightarrow>
          if state f = 0x0A \<and> listener_count net < int (MAX_LISTENERS h) then
            (if listener_count net < 0 \<or> nat (listener_count net) \<ge> length (listeners net)
             then Inl Out_Of_Bounds
             else
               (case hex_to_ip (local_addr_hex f) (sizeof_l_local_addr h) is_ipv6 of
                  Inl e \<Rightarrow> Inl e
                | Inr ip \<Rightarrow>
                    (let i = nat (listener_count net);
                         l = listeners net ! i;
                         pid = find_pid_for_inode w (inode f);
                         l' = l\<lparr>l_protocol :=
                                  snprintf (sizeof_l_protocol h) (if is_ipv6 then ''tcp6'' else ''tcp''),
                                l_local_addr := ip,
                                l_local_port := store_port (l_port_bits h) (local_port f),
                                l_state :=
                                  snprintf (sizeof_l_state h) (tcp_state_name (sint (state f))),
                                l_pid := pid,
                                l_process_name :=
                                  (if pid > 0
                                   then get_process_name w pid (l_process_name l)
                                          (sizeof_l_process_name h)
                                   else snprintf (sizeof_l_process_name h) ''[kernel]'')\<rparr>
                     in Inr (net\<lparr>listeners := (listeners net)[i := l'],
                                 listener_count := listener_count net + 1,
                                 total_listening := total_listening net + 1,
                                 unusual_port_count :=
                                   (if \<not> is_common_port (ucast (local_port f))
                                    then unusual_port_count net + 1
                                    else unusual_port_count net)\<rparr>))))
          else if state f = 0x01 \<and> connection_count net < int (MAX_CONNECTIONS h) then
            (if connection_count net < 0 \<or> nat (connection_count net) \<ge> length (connections net)
             then Inl Out_Of_Bounds
             else
               (case hex_to_ip (local_addr_hex f) (sizeof_c_local_addr h) is_ipv6 of
                  Inl e \<Rightarrow> Inl e
                | Inr lip \<Rightarrow>
                    (case hex_to_ip (remote_addr_hex f) (sizeof_c_remote_addr h) is_ipv6 of
                       Inl e \<Rightarrow> Inl e
                     | Inr rip \<Rightarrow>
                         (let i = nat (connection_count net);
                              c = connections net ! i;
                              pid = find_pid_for_inode w (inode f);
                              c' = c\<lparr>c_protocol :=
                                       snprintf (sizeof_c_protocol h)
                                         (if is_ipv6 then ''tcp6'' else ''tcp''),
                                     c_local_addr := lip,
                                     c_local_port := store_port (c_port_bits h) (local_port f),
                                     c_remote_addr := rip,
                                     c_remote_port := store_port (c_port_bits h) (remote_port f),
                                     c_state :=
                                       snprintf (sizeof_c_state h) (tcp_state_name (sint (state f))),
                                     c_pid := pid,
                                     c_process_name :=
                                       (if pid > 0
                                        then get_process_name w pid (c_process_name c)
                                               (sizeof_c_process_name h)
                                        else snprintf (sizeof_c_process_name h) ''[kernel]'')\<rparr>
                          in Inr (net\<lparr>connections := (connections net)[i := c'],
                                      connection_count := connection_count net + 1,
                                      total_established := total_established net + 1\<rparr>)))))
          else Inr net)"

text \<open>The loop of \<^verbatim>\<open>parse_tcp_file\<close> over the lines that \<^verbatim>\<open>fgets\<close> returns after the header.\<close>

fun tcp_loop ::
  "sentinel_h \<Rightarrow> world \<Rightarrow> bool \<Rightarrow> string list \<Rightarrow> network_info \<Rightarrow> fault + network_info" where
  "tcp_loop h w is_ipv6 [] net = Inr net"
| "tcp_loop h w is_ipv6 (line # rest) net =
     (case tcp_line h w is_ipv6 line net of
        Inl e \<Rightarrow> Inl e
      | Inr net' \<Rightarrow> tcp_loop h w is_ipv6 rest net')"

text \<open>
  \<^verbatim>\<open>parse_tcp_file\<close> returns its \<^verbatim>\<open>int\<close> and the structure: \<open>-1\<close> when the file does not open
  or has no header line, \<open>0\<close> otherwise.
\<close>

definition parse_tcp_file ::
  "sentinel_h \<Rightarrow> world \<Rightarrow> string \<Rightarrow> network_info \<Rightarrow> bool \<Rightarrow> fault + (int \<times> network_info)" where
  "parse_tcp_file h w filename net is_ipv6 =
     (case fopen w filename of
        None \<Rightarrow> Inr (- 1, net)
      | Some f \<Rightarrow>
          (case read_lines f of
             [] \<Rightarrow> Inr (- 1, net)
           | header # lines \<Rightarrow>
               (case tcp_loop h w is_ipv6 lines net of
                  Inl e \<Rightarrow> Inl e
                | Inr net' \<Rightarrow> Inr (0, net'))))"

text \<open>The body of the loop of \<^verbatim>\<open>parse_udp_file\<close>.\<close>

definition udp_line ::
  "sentinel_h \<Rightarrow> world \<Rightarrow> bool \<Rightarrow> string \<Rightarrow> network_info \<Rightarrow> fault + network_info" where
  "udp_line h w is_ipv6 line net =
     (case sscanf_line is_ipv6 line of
        None \<Rightarrow> Inr net
      | Some f \<Rightarrow>
          if state f = 0x07 \<or> local_port f > 0 then
            (if listener_count net < 0 \<or> nat (listener_count net) \<ge> length (listeners net)
             then Inl Out_Of_Bounds
             else
               (case hex_to_ip (local_addr_hex f) (sizeof_l_local_addr h) is_ipv6 of
                  Inl e \<Rightarrow> Inl e
                | Inr ip \<Rightarrow>
                    (let i = nat (listener_count net);
                         l = listeners net ! i;
                         pid = find_pid_for_inode w (inode f);
                         l' = l\<lparr>l_protocol :=
                                  snprintf (sizeof_l_protocol h) (if is_ipv6 then ''udp6'' else ''udp''),
                                l_local_addr := ip,
                                l_local_port := store_port (l_port_bits h) (local_port f),
                                l_state := snprintf (sizeof_l_state h) ''LISTEN'',
                                l_pid := pid,
                                l_process_name :=
                                  (if pid > 0
                                   then get_process_name w pid (l_process_name l)
                                          (sizeof_l_process_name h)
                                   else snprintf (sizeof_l_process_name h) ''[kernel]'')\<rparr>
                     in Inr (net\<lparr>listeners := (listeners net)[i := l'],
                                 listener_count := listener_count net + 1,
                                 total_listening := total_listening net + 1,
                                 unusual_port_count :=
                                   (if \<not> is_common_port (ucast (local_port f))
                                    then unusual_port_count net + 1
                                    else unusual_port_count net)\<rparr>))))
          else Inr net)"

text \<open>
  \<^verbatim>\<open>while (fgets(...) && net->listener_count < MAX_LISTENERS)\<close>: the loop ends at the end
  of the file or when the listener array is full.
\<close>

fun udp_loop ::
  "sentinel_h \<Rightarrow> world \<Rightarrow> bool \<Rightarrow> string list \<Rightarrow> network_info \<Rightarrow> fault + network_info" where
  "udp_loop h w is_ipv6 [] net = Inr net"
| "udp_loop h w is_ipv6 (line # rest) net =
     (if listener_count net < int (MAX_LISTENERS h) then
        (case udp_line h w is_ipv6 line net of
           Inl e \<Rightarrow> Inl e
         | Inr net' \<Rightarrow> udp_loop h w is_ipv6 rest net')
      else Inr net)"

definition parse_udp_file ::
  "sentinel_h \<Rightarrow> world \<Rightarrow> string \<Rightarrow> network_info \<Rightarrow> bool \<Rightarrow> fault + (int \<times> network_info)" where
  "parse_udp_file h w filename net is_ipv6 =
     (case fopen w filename of
        None \<Rightarrow> Inr (- 1, net)
      | Some f \<Rightarrow>
          (case read_lines f of
             [] \<Rightarrow> Inr (- 1, net)
           | header # lines \<Rightarrow>
               (case udp_loop h w is_ipv6 lines net of
                  Inl e \<Rightarrow> Inl e
                | Inr net' \<Rightarrow> Inr (0, net'))))"

subsection \<open>The probe\<close>

text \<open>
  \<^verbatim>\<open>probe_network\<close> clears the structure, runs the four parsers in turn without looking
  at what they return, and returns 0.
\<close>

definition probe_network :: "sentinel_h \<Rightarrow> world \<Rightarrow> network_info \<Rightarrow> fault + (int \<times> network_info)" where
  "probe_network h w net =
     (let net0 = memset_zero h net
      in case parse_tcp_file h w ''/proc/net/tcp'' net0 False of
           Inl e \<Rightarrow> Inl e
         | Inr (_, net1) \<Rightarrow>
             (case parse_tcp_file h w ''/proc/net/tcp6'' net1 True of
                Inl e \<Rightarrow> Inl e
              | Inr (_, net2) \<Rightarrow>
                  (case parse_udp_file h w ''/proc/net/udp'' net2 False of
                     Inl e \<Rightarrow> Inl e
                   | Inr (_, net3) \<Rightarrow>
                       (case parse_udp_file h w ''/proc/net/udp6'' net3 True of
                          Inl e \<Rightarrow> Inl e
                        | Inr (_, net4) \<Rightarrow> Inr (0, net4)))))"

section \<open>Vocabulary of the statements\<close>

text \<open>
  A structure is well formed when its two arrays have their declared lengths and its two
  counts lie between 0 and the capacities.
\<close>

definition net_ok :: "sentinel_h \<Rightarrow> network_info \<Rightarrow> bool" where
  "net_ok h net =
     (length (listeners net) = MAX_LISTENERS h \<and> length (connections net) = MAX_CONNECTIONS h
      \<and> 0 \<le> listener_count net \<and> listener_count net \<le> int (MAX_LISTENERS h)
      \<and> 0 \<le> connection_count net \<and> connection_count net \<le> int (MAX_CONNECTIONS h))"

text \<open>The stored sequences: the slots below the counts.\<close>

definition stored_listeners :: "network_info \<Rightarrow> net_listener list" where
  "stored_listeners net = take (nat (listener_count net)) (listeners net)"

definition stored_connections :: "network_info \<Rightarrow> net_connection list" where
  "stored_connections net = take (nat (connection_count net)) (connections net)"

text \<open>
  The lines of a socket table after its header (none when the file does not open), the
  value a parser returns for the file, and the records of the table: the lines that
  \<^verbatim>\<open>sscanf\<close> converts.
\<close>

definition table_lines :: "world \<Rightarrow> string \<Rightarrow> string list" where
  "table_lines w filename = (case fopen w filename of None \<Rightarrow> [] | Some f \<Rightarrow> tl (read_lines f))"

definition file_status :: "world \<Rightarrow> string \<Rightarrow> int" where
  "file_status w filename =
     (case fopen w filename of
        None \<Rightarrow> - 1
      | Some f \<Rightarrow> if read_lines f = [] then - 1 else 0)"

definition scanned_records :: "bool \<Rightarrow> string list \<Rightarrow> scanned list" where
  "scanned_records is_ipv6 lines = List.map_filter (sscanf_line is_ipv6) lines"

definition table_records :: "world \<Rightarrow> string \<Rightarrow> bool \<Rightarrow> scanned list" where
  "table_records w filename is_ipv6 = scanned_records is_ipv6 (table_lines w filename)"

text \<open>The tests the parsers make on a record, and the test of the unusual-port counter.\<close>

definition tcp_listener :: "scanned \<Rightarrow> bool" where
  "tcp_listener f = (state f = 0x0A)"

definition tcp_connection :: "scanned \<Rightarrow> bool" where
  "tcp_connection f = (state f = 0x01)"

definition udp_listener :: "scanned \<Rightarrow> bool" where
  "udp_listener f = (state f = 0x07 \<or> local_port f > 0)"

definition unusual :: "scanned \<Rightarrow> bool" where
  "unusual f = (\<not> is_common_port (ucast (local_port f)))"

text \<open>
  The matching records of one probe in the order the probe meets them: the four tables
  in turn for listeners, the two TCP tables for connections.
\<close>

definition observed_listeners :: "world \<Rightarrow> scanned list" where
  "observed_listeners w =
     filter tcp_listener (table_records w ''/proc/net/tcp'' False)
     @ filter tcp_listener (table_records w ''/proc/net/tcp6'' True)
     @ filter udp_listener (table_records w ''/proc/net/udp'' False)
     @ filter udp_listener (table_records w ''/proc/net/udp6'' True)"

definition observed_connections :: "world \<Rightarrow> scanned list" where
  "observed_connections w =
     filter tcp_connection (table_records w ''/proc/net/tcp'' False)
     @ filter tcp_connection (table_records w ''/proc/net/tcp6'' True)"

text \<open>
  The counters of a structure against the matching records met so far: \<open>ls\<close> the
  listener records, \<open>cs\<close> the connection records.
\<close>

definition summary :: "sentinel_h \<Rightarrow> network_info \<Rightarrow> scanned list \<Rightarrow> scanned list \<Rightarrow> bool" where
  "summary h net ls cs =
     (net_ok h net
      \<and> listener_count net = int (min (length ls) (MAX_LISTENERS h))
      \<and> connection_count net = int (min (length cs) (MAX_CONNECTIONS h))
      \<and> total_listening net = listener_count net
      \<and> total_established net = connection_count net
      \<and> unusual_port_count net = int (length (filter unusual (take (MAX_LISTENERS h) ls))))"

text \<open>
  The owner of a socket as a search: an entry of \<^verbatim>\<open>/proc\<close> counts as a process when its
  name starts with a digit; it holds the socket when its \<^verbatim>\<open>fd\<close> directory opens and the
  target of one of its links is \<^verbatim>\<open>socket:[inode]\<close>.
\<close>

definition numeric_entry :: "string \<Rightarrow> bool" where
  "numeric_entry d_name = (case d_name of [] \<Rightarrow> False | c # _ \<Rightarrow> isdigit c)"

definition fd_path_of :: "string \<Rightarrow> string" where
  "fd_path_of d_name = snprintf 128 (''/proc/'' @ show_int (atoi d_name) @ ''/fd'')"

definition names_socket :: "world \<Rightarrow> string \<Rightarrow> 64 word \<Rightarrow> bool" where
  "names_socket w path ino =
     (case readlink w path of
        None \<Rightarrow> False
      | Some target \<Rightarrow>
          target \<noteq> [] \<and> c_str (take 511 target) = ''socket:['' @ show_nat (unat ino) @ '']'')"

definition holds_socket :: "world \<Rightarrow> 64 word \<Rightarrow> string \<Rightarrow> bool" where
  "holds_socket w ino d_name =
     (case opendir w (fd_path_of d_name) of
        None \<Rightarrow> False
      | Some fds \<Rightarrow>
          list_ex (\<lambda>fd. names_socket w (snprintf 512 (fd_path_of d_name @ ''/'' @ fd)) ino) fds)"

section \<open>Sample data\<close>

text \<open>
  Values for the constants of \<^verbatim>\<open>sentinel.h\<close>, and a small \<^verbatim>\<open>/proc\<close>: a TCP table with a
  listening socket on port 8443 (inode 12345), an established connection, a socket in
  \<^verbatim>\<open>TIME_WAIT\<close> and a damaged line; a UDP table with an unconnected socket on port 53 and
  a connected one on port 9999; no IPv6 tables (one line of a \<^verbatim>\<open>tcp6\<close> table is given apart); and one readable process, 500 (\<^verbatim>\<open>envoy\<close>),
  which holds the listening TCP socket. Each line ends with a newline, as \<^verbatim>\<open>fgets\<close> returns
  it.
\<close>

definition sample_h :: sentinel_h where
  "sample_h =
     \<lparr>MAX_LISTENERS = 64, MAX_CONNECTIONS = 128,
      sizeof_l_protocol = 8, sizeof_l_local_addr = 64, sizeof_l_state = 16,
      sizeof_l_process_name = 64, l_port_bits = 16,
      sizeof_c_protocol = 8, sizeof_c_local_addr = 64, sizeof_c_remote_addr = 64,
      sizeof_c_state = 16, sizeof_c_process_name = 64, c_port_bits = 16\<rparr>"

definition header_text :: string where
  "header_text = ''  sl  local_address rem_address   st tx_queue rx_queue tr tm->when retrnsmt   uid  timeout inode''"

definition header_line :: string where
  "header_line = header_text @ [newline]"

definition tcp_listen_text :: string where
  "tcp_listen_text = ''   0: 00000000:20FB 00000000:0000 0A 00000000:00000000 00:00000000 00000000     0        0 12345 1 0000000000000000 100 0 0 10 0''"

definition tcp_listen_line :: string where
  "tcp_listen_line = tcp_listen_text @ [newline]"

definition tcp_estab_text :: string where
  "tcp_estab_text = ''   1: 0101A8C0:9C40 0201A8C0:01BB 01 00000000:00000000 00:00000000 00000000  1000        0 23456 1 0000000000000000 20 4 30 10 -1''"

definition tcp_estab_line :: string where
  "tcp_estab_line = tcp_estab_text @ [newline]"

definition tcp_wait_text :: string where
  "tcp_wait_text = ''   2: 0101A8C0:9C42 0201A8C0:01BB 06 00000000:00000000 03:00000A2B 00000000     0        0 0 3 0000000000000000''"

definition tcp_wait_line :: string where
  "tcp_wait_line = tcp_wait_text @ [newline]"

definition bad_text :: string where
  "bad_text = ''   3: 0101A8C0:9C44 0201A8C0''"

definition bad_line :: string where
  "bad_line = bad_text @ [newline]"

definition udp_unconn_text :: string where
  "udp_unconn_text = ''  10: 00000000:0035 00000000:0000 07 00000000:00000000 00:00000000 00000000     0        0 34567 2 0000000000000000 0''"

definition udp_unconn_line :: string where
  "udp_unconn_line = udp_unconn_text @ [newline]"

definition udp_conn_text :: string where
  "udp_conn_text = ''  11: 0100007F:270F 0100007F:0035 01 00000000:00000000 00:00000000 00000000  1000        0 45678 2 0000000000000000 0''"

definition udp_conn_line :: string where
  "udp_conn_line = udp_conn_text @ [newline]"

definition tcp6_listen_text :: string where
  "tcp6_listen_text = ''   0: 00000000000000000000000001000000:1F90 00000000000000000000000000000000:0000 0A 00000000:00000000 00:00000000 00000000     0        0 56789 1 0000000000000000 100 0 0 10 0''"

definition tcp6_listen_line :: string where
  "tcp6_listen_line = tcp6_listen_text @ [newline]"

definition tcp_text :: string where
  "tcp_text = header_line @ tcp_listen_line @ tcp_estab_line @ tcp_wait_line @ bad_line"

definition udp_text :: string where
  "udp_text = header_line @ udp_unconn_line @ udp_conn_line"

definition sample_world :: world where
  "sample_world =
     \<lparr>fopen = (\<lambda>path.
        if path = ''/proc/net/tcp'' then Some tcp_text
        else if path = ''/proc/net/udp'' then Some udp_text
        else if path = ''/proc/500/comm'' then Some (''envoy'' @ [newline])
        else None),
      opendir = (\<lambda>path.
        if path = ''/proc'' then Some [''.'', ''..'', ''self'', ''1'', ''500'']
        else if path = ''/proc/500/fd'' then Some [''.'', ''..'', ''0'', ''3'']
        else None),
      readlink = (\<lambda>path.
        if path = ''/proc/500/fd/0'' then Some ''/dev/null''
        else if path = ''/proc/500/fd/3'' then Some ''socket:[12345]''
        else None)\<rparr>"

text \<open>What the scanner assigns on the sample lines that it converts.\<close>

definition tcp_listen_rec :: scanned where
  "tcp_listen_rec =
     \<lparr>local_addr_hex = ''00000000'', local_port = 0x20FB, remote_addr_hex = ''00000000'',
      remote_port = 0, state = 0x0A, inode = 12345\<rparr>"

definition tcp_estab_rec :: scanned where
  "tcp_estab_rec =
     \<lparr>local_addr_hex = ''0101A8C0'', local_port = 0x9C40, remote_addr_hex = ''0201A8C0'',
      remote_port = 0x01BB, state = 0x01, inode = 23456\<rparr>"

definition tcp_wait_rec :: scanned where
  "tcp_wait_rec =
     \<lparr>local_addr_hex = ''0101A8C0'', local_port = 0x9C42, remote_addr_hex = ''0201A8C0'',
      remote_port = 0x01BB, state = 0x06, inode = 0\<rparr>"

definition tcp6_listen_rec :: scanned where
  "tcp6_listen_rec =
     \<lparr>local_addr_hex = ''00000000000000000000000001000000'', local_port = 0x1F90,
      remote_addr_hex = ''00000000000000000000000000000000'',
      remote_port = 0, state = 0x0A, inode = 56789\<rparr>"

definition udp_unconn_rec :: scanned where
  "udp_unconn_rec =
     \<lparr>local_addr_hex = ''00000000'', local_port = 0x35, remote_addr_hex = ''00000000'',
      remote_port = 0, state = 0x07, inode = 34567\<rparr>"

definition udp_conn_rec :: scanned where
  "udp_conn_rec =
     \<lparr>local_addr_hex = ''0100007F'', local_port = 0x270F, remote_addr_hex = ''0100007F'',
      remote_port = 0x35, state = 0x01, inode = 45678\<rparr>"

text \<open>A structure as an earlier probe may have left it, and one whose listener array is full.\<close>

definition stale_net :: network_info where
  "stale_net =
     \<lparr>listeners = replicate 64 (zero_listener\<lparr>l_protocol := ''udp'', l_pid := 77\<rparr>),
      listener_count = 9,
      connections = replicate 128 zero_connection,
      connection_count = 4,
      total_listening = 9,
      total_established = 4,
      unusual_port_count = 2\<rparr>"

definition envoy_listener :: net_listener where
  "envoy_listener =
     \<lparr>l_protocol = ''tcp'', l_local_addr = ''0.0.0.0'', l_local_port = 8443,
      l_state = ''LISTEN'', l_pid = 500, l_process_name = ''envoy''\<rparr>"

definition full_net :: network_info where
  "full_net =
     \<lparr>listeners = replicate 64 envoy_listener,
      listener_count = 64,
      connections = replicate 128 zero_connection,
      connection_count = 0,
      total_listening = 64,
      total_established = 0,
      unusual_port_count = 0\<rparr>"

text \<open>The structure after \<open>k\<close> copies of the listening TCP line.\<close>

definition listening :: "nat \<Rightarrow> network_info" where
  "listening k =
     \<lparr>listeners = replicate k envoy_listener @ replicate (64 - k) zero_listener,
      listener_count = int k,
      connections = replicate 128 zero_connection,
      connection_count = 0,
      total_listening = int k,
      total_established = 0,
      unusual_port_count = 0\<rparr>"

text \<open>
  The entries the probe stores for the sample records, and a structure holding given
  listeners and connections in its first slots.
\<close>

definition dns_listener :: net_listener where
  "dns_listener =
     \<lparr>l_protocol = ''udp'', l_local_addr = ''0.0.0.0'', l_local_port = 53,
      l_state = ''LISTEN'', l_pid = 0, l_process_name = ''[kernel]''\<rparr>"

definition stray_listener :: net_listener where
  "stray_listener =
     \<lparr>l_protocol = ''udp'', l_local_addr = ''127.0.0.1'', l_local_port = 9999,
      l_state = ''LISTEN'', l_pid = 0, l_process_name = ''[kernel]''\<rparr>"

definition peer_connection :: net_connection where
  "peer_connection =
     \<lparr>c_protocol = ''tcp'', c_local_addr = ''192.168.1.1'', c_local_port = 40000,
      c_remote_addr = ''192.168.1.2'', c_remote_port = 443,
      c_state = ''ESTABLISHED'', c_pid = 0, c_process_name = ''[kernel]''\<rparr>"

definition holding :: "net_listener list \<Rightarrow> net_connection list \<Rightarrow> int \<Rightarrow> network_info" where
  "holding ls cs u =
     \<lparr>listeners = ls @ replicate (64 - length ls) zero_listener,
      listener_count = int (length ls),
      connections = cs @ replicate (128 - length cs) zero_connection,
      connection_count = int (length cs),
      total_listening = int (length ls),
      total_established = int (length cs),
      unusual_port_count = u\<rparr>"

section \<open>Properties of the scanner and of the parsers\<close>

lemma scan_xdigits_Some:
  assumes "scan_xdigits width s = Some (ds, r)"
  shows "ds \<noteq> []" and "list_all isxdigit ds" and "length ds \<le> width"
proof -
  from assms have ds: "ds = takeWhile isxdigit (take width s)" and ne: "ds \<noteq> []"
    by (auto simp: scan_xdigits_def Let_def split: if_splits)
  show "ds \<noteq> []" by (rule ne)
  show "list_all isxdigit ds"
    unfolding ds list_all_iff by (auto dest: set_takeWhileD)
  have "length ds \<le> length (take width s)"
    unfolding ds by (rule length_takeWhile_le)
  then show "length ds \<le> width" by simp
qed

lemma isxdigit_not_space: "isxdigit c \<Longrightarrow> \<not> isspace c"
  by (auto simp: isxdigit_def isdigit_def isspace_def)

lemma isxdigit_not_sign: "isxdigit c \<Longrightarrow> c \<noteq> CHR ''-'' \<and> c \<noteq> CHR ''+'' \<and> c \<noteq> CHR ''x'' \<and> c \<noteq> CHR ''X''"
  by (auto simp: isxdigit_def isdigit_def)

lemma scan_hex_xdigits:
  assumes "ds \<noteq> []" and "list_all isxdigit ds"
  shows "scan_hex ds = Some (ucast (strtoul_value False (digits_val 16 ds)), [])"
proof -
  from assms obtain c cs where ds: "ds = c # cs" and c: "isxdigit c" and cs: "list_all isxdigit cs"
    by (cases ds) auto
  have ws: "skip_ws ds = ds"
    using c by (simp add: skip_ws_def ds isxdigit_not_space)
  have sg: "scan_sign ds = (False, ds)"
    using c isxdigit_not_sign [OF c] by (simp add: scan_sign_def ds)
  have tw: "takeWhile isxdigit ds = ds" and dw: "dropWhile isxdigit ds = []"
    using assms(2) by (simp_all add: list_all_iff)
  have pre: "(case ds of a # b # r \<Rightarrow> if a = CHR ''0'' \<and> (b = CHR ''x'' \<or> b = CHR ''X'')
                             then (True, r) else (False, ds)
              | _ \<Rightarrow> (False, ds)) = (False, ds)"
  proof (cases cs)
    case Nil
    then show ?thesis by (simp add: ds)
  next
    case (Cons b r)
    with cs have "isxdigit b" by simp
    from isxdigit_not_sign [OF this] show ?thesis by (simp add: ds Cons)
  qed
  show ?thesis
    unfolding scan_hex_def ws sg
    using assms(1) by (simp add: pre tw dw)
qed

lemma sscanf_fmt_addrs:
  assumes "sscanf_fmt width line = Some f"
  shows "local_addr_hex f \<noteq> [] \<and> list_all isxdigit (local_addr_hex f) \<and> length (local_addr_hex f) \<le> width
       \<and> remote_addr_hex f \<noteq> [] \<and> list_all isxdigit (remote_addr_hex f) \<and> length (remote_addr_hex f) \<le> width"
proof -
  from assms obtain a ra b rb where
    "scan_xdigits width a = Some (local_addr_hex f, ra)"
    "scan_xdigits width b = Some (remote_addr_hex f, rb)"
    by (auto simp: sscanf_fmt_def bind_eq_Some_conv)
  then show ?thesis by (auto dest: scan_xdigits_Some)
qed

lemma sscanf_line_addrs:
  assumes "sscanf_line is_ipv6 line = Some f"
  shows "local_addr_hex f \<noteq> []" "list_all isxdigit (local_addr_hex f)"
        "remote_addr_hex f \<noteq> []" "list_all isxdigit (remote_addr_hex f)"
  using assms sscanf_fmt_addrs [of 32 "c_str line" f] sscanf_fmt_addrs [of 8 "c_str line" f]
  by (auto simp: sscanf_line_def split: if_splits)

lemma hex_to_ip_local:
  assumes "sscanf_line is_ipv6 line = Some f"
  shows "\<exists>ip. hex_to_ip (local_addr_hex f) n is_ipv6 = Inr ip"
  using sscanf_line_addrs [OF assms]
  by (simp add: hex_to_ip_def scan_hex_xdigits)

lemma hex_to_ip_remote:
  assumes "sscanf_line is_ipv6 line = Some f"
  shows "\<exists>ip. hex_to_ip (remote_addr_hex f) n is_ipv6 = Inr ip"
  using sscanf_line_addrs [OF assms]
  by (simp add: hex_to_ip_def scan_hex_xdigits)

lemma tcp_line_skip:
  "sscanf_line is_ipv6 line = None \<Longrightarrow> tcp_line h w is_ipv6 line net = Inr net"
  by (simp add: tcp_line_def)

lemma tcp_line_other:
  assumes sc: "sscanf_line is_ipv6 line = Some f"
    and "\<not> (state f = 0x0A \<and> listener_count net < int (MAX_LISTENERS h))"
    and "\<not> (state f = 0x01 \<and> connection_count net < int (MAX_CONNECTIONS h))"
  shows "tcp_line h w is_ipv6 line net = Inr net"
proof -
  have c1: "(state f = 0x0A \<and> listener_count net < int (MAX_LISTENERS h)) = False"
    and c2: "(state f = 0x01 \<and> connection_count net < int (MAX_CONNECTIONS h)) = False"
    using assms(2,3) by blast+
  show ?thesis
    unfolding tcp_line_def by (simp only: sc c1 c2 option.case if_False)
qed

lemma tcp_line_listen:
  assumes sc: "sscanf_line is_ipv6 line = Some f"
    and st: "state f = 0x0A"
    and lt: "listener_count net < int (MAX_LISTENERS h)"
    and ok: "net_ok h net"
  shows "\<exists>l'. tcp_line h w is_ipv6 line net =
           Inr (net\<lparr>listeners := (listeners net)[nat (listener_count net) := l'],
                    listener_count := listener_count net + 1,
                    total_listening := total_listening net + 1,
                    unusual_port_count :=
                      (if \<not> is_common_port (ucast (local_port f))
                       then unusual_port_count net + 1 else unusual_port_count net)\<rparr>)
         \<and> l_protocol l' = snprintf (sizeof_l_protocol h) (if is_ipv6 then ''tcp6'' else ''tcp'')
         \<and> l_local_port l' = store_port (l_port_bits h) (local_port f)
         \<and> l_state l' = snprintf (sizeof_l_state h) ''LISTEN''
         \<and> l_pid l' = find_pid_for_inode w (inode f)
         \<and> l_process_name l' =
              (if find_pid_for_inode w (inode f) > 0
               then get_process_name w (find_pid_for_inode w (inode f))
                      (l_process_name (listeners net ! nat (listener_count net)))
                      (sizeof_l_process_name h)
               else snprintf (sizeof_l_process_name h) ''[kernel]'')
         \<and> hex_to_ip (local_addr_hex f) (sizeof_l_local_addr h) is_ipv6 = Inr (l_local_addr l')"
proof -
  from hex_to_ip_local [OF sc] obtain ip where
    ip: "hex_to_ip (local_addr_hex f) (sizeof_l_local_addr h) is_ipv6 = Inr ip" by blast
  have c1: "(state f = 0x0A \<and> listener_count net < int (MAX_LISTENERS h)) = True"
    using st lt by simp
  have rng: "(listener_count net < 0 \<or> nat (listener_count net) \<ge> length (listeners net)) = False"
    using ok lt by (auto simp: net_ok_def)
  have name: "tcp_state_name (sint (state f)) = ''LISTEN''"
    by (simp add: st tcp_state_name_def states_def)
  define l' where "l' = (listeners net ! nat (listener_count net))
       \<lparr>l_protocol := snprintf (sizeof_l_protocol h) (if is_ipv6 then ''tcp6'' else ''tcp''),
        l_local_addr := ip,
        l_local_port := store_port (l_port_bits h) (local_port f),
        l_state := snprintf (sizeof_l_state h) ''LISTEN'',
        l_pid := find_pid_for_inode w (inode f),
        l_process_name :=
          (if find_pid_for_inode w (inode f) > 0
           then get_process_name w (find_pid_for_inode w (inode f))
                  (l_process_name (listeners net ! nat (listener_count net)))
                  (sizeof_l_process_name h)
           else snprintf (sizeof_l_process_name h) ''[kernel]'')\<rparr>"
  have eq: "tcp_line h w is_ipv6 line net =
           Inr (net\<lparr>listeners := (listeners net)[nat (listener_count net) := l'],
                    listener_count := listener_count net + 1,
                    total_listening := total_listening net + 1,
                    unusual_port_count :=
                      (if \<not> is_common_port (ucast (local_port f))
                       then unusual_port_count net + 1 else unusual_port_count net)\<rparr>)"
    unfolding tcp_line_def l'_def
    by (simp only: sc c1 rng ip name option.case sum.case if_True if_False Let_def)
  show ?thesis
    by (rule exI [of _ l']) (simp add: eq ip, simp add: l'_def)
qed

lemma tcp_line_estab:
  assumes sc: "sscanf_line is_ipv6 line = Some f"
    and st: "state f = 0x01"
    and lt: "connection_count net < int (MAX_CONNECTIONS h)"
    and ok: "net_ok h net"
  shows "\<exists>c'. tcp_line h w is_ipv6 line net =
           Inr (net\<lparr>connections := (connections net)[nat (connection_count net) := c'],
                    connection_count := connection_count net + 1,
                    total_established := total_established net + 1\<rparr>)
         \<and> c_protocol c' = snprintf (sizeof_c_protocol h) (if is_ipv6 then ''tcp6'' else ''tcp'')
         \<and> c_local_port c' = store_port (c_port_bits h) (local_port f)
         \<and> c_remote_port c' = store_port (c_port_bits h) (remote_port f)
         \<and> c_state c' = snprintf (sizeof_c_state h) ''ESTABLISHED''
         \<and> c_pid c' = find_pid_for_inode w (inode f)
         \<and> c_process_name c' =
              (if find_pid_for_inode w (inode f) > 0
               then get_process_name w (find_pid_for_inode w (inode f))
                      (c_process_name (connections net ! nat (connection_count net)))
                      (sizeof_c_process_name h)
               else snprintf (sizeof_c_process_name h) ''[kernel]'')
         \<and> hex_to_ip (local_addr_hex f) (sizeof_c_local_addr h) is_ipv6 = Inr (c_local_addr c')
         \<and> hex_to_ip (remote_addr_hex f) (sizeof_c_remote_addr h) is_ipv6 = Inr (c_remote_addr c')"
proof -
  from hex_to_ip_local [OF sc] obtain lip where
    lip: "hex_to_ip (local_addr_hex f) (sizeof_c_local_addr h) is_ipv6 = Inr lip" by blast
  from hex_to_ip_remote [OF sc] obtain rip where
    rip: "hex_to_ip (remote_addr_hex f) (sizeof_c_remote_addr h) is_ipv6 = Inr rip" by blast
  have c1: "(state f = 0x0A \<and> listener_count net < int (MAX_LISTENERS h)) = False"
    using st by simp
  have c2: "(state f = 0x01 \<and> connection_count net < int (MAX_CONNECTIONS h)) = True"
    using st lt by simp
  have rng: "(connection_count net < 0 \<or> nat (connection_count net) \<ge> length (connections net)) = False"
    using ok lt by (auto simp: net_ok_def)
  have name: "tcp_state_name (sint (state f)) = ''ESTABLISHED''"
    by (simp add: st tcp_state_name_def states_def)
  define c' where "c' = (connections net ! nat (connection_count net))
       \<lparr>c_protocol := snprintf (sizeof_c_protocol h) (if is_ipv6 then ''tcp6'' else ''tcp''),
        c_local_addr := lip,
        c_local_port := store_port (c_port_bits h) (local_port f),
        c_remote_addr := rip,
        c_remote_port := store_port (c_port_bits h) (remote_port f),
        c_state := snprintf (sizeof_c_state h) ''ESTABLISHED'',
        c_pid := find_pid_for_inode w (inode f),
        c_process_name :=
          (if find_pid_for_inode w (inode f) > 0
           then get_process_name w (find_pid_for_inode w (inode f))
                  (c_process_name (connections net ! nat (connection_count net)))
                  (sizeof_c_process_name h)
           else snprintf (sizeof_c_process_name h) ''[kernel]'')\<rparr>"
  have eq: "tcp_line h w is_ipv6 line net =
           Inr (net\<lparr>connections := (connections net)[nat (connection_count net) := c'],
                    connection_count := connection_count net + 1,
                    total_established := total_established net + 1\<rparr>)"
    unfolding tcp_line_def c'_def
    by (simp only: sc c1 c2 rng lip rip name option.case sum.case if_True if_False Let_def)
  show ?thesis
    by (rule exI [of _ c']) (simp add: eq lip rip, simp add: c'_def)
qed

lemma udp_line_skip:
  "sscanf_line is_ipv6 line = None \<Longrightarrow> udp_line h w is_ipv6 line net = Inr net"
  by (simp add: udp_line_def)

lemma udp_line_other:
  assumes sc: "sscanf_line is_ipv6 line = Some f"
    and "\<not> (state f = 0x07 \<or> local_port f > 0)"
  shows "udp_line h w is_ipv6 line net = Inr net"
proof -
  have c1: "(state f = 0x07 \<or> local_port f > 0) = False"
    using assms(2) by blast
  show ?thesis
    unfolding udp_line_def by (simp only: sc c1 option.case if_False)
qed

lemma udp_line_store:
  assumes sc: "sscanf_line is_ipv6 line = Some f"
    and st: "state f = 0x07 \<or> local_port f > 0"
    and lt: "listener_count net < int (MAX_LISTENERS h)"
    and ok: "net_ok h net"
  shows "\<exists>l'. udp_line h w is_ipv6 line net =
           Inr (net\<lparr>listeners := (listeners net)[nat (listener_count net) := l'],
                    listener_count := listener_count net + 1,
                    total_listening := total_listening net + 1,
                    unusual_port_count :=
                      (if \<not> is_common_port (ucast (local_port f))
                       then unusual_port_count net + 1 else unusual_port_count net)\<rparr>)
         \<and> l_protocol l' = snprintf (sizeof_l_protocol h) (if is_ipv6 then ''udp6'' else ''udp'')
         \<and> l_local_port l' = store_port (l_port_bits h) (local_port f)
         \<and> l_state l' = snprintf (sizeof_l_state h) ''LISTEN''
         \<and> l_pid l' = find_pid_for_inode w (inode f)
         \<and> l_process_name l' =
              (if find_pid_for_inode w (inode f) > 0
               then get_process_name w (find_pid_for_inode w (inode f))
                      (l_process_name (listeners net ! nat (listener_count net)))
                      (sizeof_l_process_name h)
               else snprintf (sizeof_l_process_name h) ''[kernel]'')
         \<and> hex_to_ip (local_addr_hex f) (sizeof_l_local_addr h) is_ipv6 = Inr (l_local_addr l')"
proof -
  from hex_to_ip_local [OF sc] obtain ip where
    ip: "hex_to_ip (local_addr_hex f) (sizeof_l_local_addr h) is_ipv6 = Inr ip" by blast
  have c1: "(state f = 0x07 \<or> local_port f > 0) = True"
    using st by simp
  have rng: "(listener_count net < 0 \<or> nat (listener_count net) \<ge> length (listeners net)) = False"
    using ok lt by (auto simp: net_ok_def)
  define l' where "l' = (listeners net ! nat (listener_count net))
       \<lparr>l_protocol := snprintf (sizeof_l_protocol h) (if is_ipv6 then ''udp6'' else ''udp''),
        l_local_addr := ip,
        l_local_port := store_port (l_port_bits h) (local_port f),
        l_state := snprintf (sizeof_l_state h) ''LISTEN'',
        l_pid := find_pid_for_inode w (inode f),
        l_process_name :=
          (if find_pid_for_inode w (inode f) > 0
           then get_process_name w (find_pid_for_inode w (inode f))
                  (l_process_name (listeners net ! nat (listener_count net)))
                  (sizeof_l_process_name h)
           else snprintf (sizeof_l_process_name h) ''[kernel]'')\<rparr>"
  have eq: "udp_line h w is_ipv6 line net =
           Inr (net\<lparr>listeners := (listeners net)[nat (listener_count net) := l'],
                    listener_count := listener_count net + 1,
                    total_listening := total_listening net + 1,
                    unusual_port_count :=
                      (if \<not> is_common_port (ucast (local_port f))
                       then unusual_port_count net + 1 else unusual_port_count net)\<rparr>)"
    unfolding udp_line_def l'_def
    by (simp only: sc c1 rng ip option.case sum.case if_True if_False Let_def)
  show ?thesis
    by (rule exI [of _ l']) (simp add: eq ip, simp add: l'_def)
qed

lemma scanned_records_Nil [simp]: "scanned_records v [] = []"
  by (simp add: scanned_records_def map_filter_simps)

lemma scanned_records_Cons:
  "scanned_records v (x # xs) =
     (case sscanf_line v x of None \<Rightarrow> scanned_records v xs | Some f \<Rightarrow> f # scanned_records v xs)"
  unfolding scanned_records_def by (simp add: map_filter_simps)

lemma net_ok_listener_update:
  assumes "net_ok h net" "listener_count net < int (MAX_LISTENERS h)"
  shows "net_ok h (net\<lparr>listeners := (listeners net)[i := l'],
                    listener_count := listener_count net + 1,
                    total_listening := t, unusual_port_count := u\<rparr>)"
  using assms by (simp add: net_ok_def)

lemma net_ok_connection_update:
  assumes "net_ok h net" "connection_count net < int (MAX_CONNECTIONS h)"
  shows "net_ok h (net\<lparr>connections := (connections net)[i := c'],
                    connection_count := connection_count net + 1,
                    total_established := t\<rparr>)"
  using assms by (simp add: net_ok_def)

lemma tcp_line_summary:
  assumes s: "summary h net ls cs"
  shows "\<exists>net'. tcp_line h w v line net = Inr net'
           \<and> summary h net' (ls @ filter tcp_listener (scanned_records v [line]))
                            (cs @ filter tcp_connection (scanned_records v [line]))"
proof (cases "sscanf_line v line")
  case None
  then show ?thesis using s by (simp add: tcp_line_skip scanned_records_Cons)
next
  case (Some f)
  from s have ok: "net_ok h net" by (simp add: summary_def)
  consider (listen) "state f = 0x0A" "listener_count net < int (MAX_LISTENERS h)"
    | (estab) "state f = 0x01" "connection_count net < int (MAX_CONNECTIONS h)"
    | (other) "\<not> (state f = 0x0A \<and> listener_count net < int (MAX_LISTENERS h))"
              "\<not> (state f = 0x01 \<and> connection_count net < int (MAX_CONNECTIONS h))"
    by blast
  then show ?thesis
  proof cases
    case listen
    from tcp_line_listen [OF Some listen ok, of w] obtain l' where
      eq: "tcp_line h w v line net =
           Inr (net\<lparr>listeners := (listeners net)[nat (listener_count net) := l'],
                    listener_count := listener_count net + 1,
                    total_listening := total_listening net + 1,
                    unusual_port_count :=
                      (if \<not> is_common_port (ucast (local_port f))
                       then unusual_port_count net + 1 else unusual_port_count net)\<rparr>)"
      by blast
    have len: "length ls < MAX_LISTENERS h"
      using s listen(2) by (simp add: summary_def)
    have "summary h (net\<lparr>listeners := (listeners net)[nat (listener_count net) := l'],
                    listener_count := listener_count net + 1,
                    total_listening := total_listening net + 1,
                    unusual_port_count :=
                      (if \<not> is_common_port (ucast (local_port f))
                       then unusual_port_count net + 1 else unusual_port_count net)\<rparr>)
            (ls @ [f]) cs"
      using s len listen(2) net_ok_listener_update [OF ok listen(2)]
      by (simp add: summary_def unusual_def)
    then show ?thesis
      using eq listen(1) by (simp add: scanned_records_Cons Some tcp_listener_def tcp_connection_def)
  next
    case estab
    from tcp_line_estab [OF Some estab ok, of w] obtain c' where
      eq: "tcp_line h w v line net =
           Inr (net\<lparr>connections := (connections net)[nat (connection_count net) := c'],
                    connection_count := connection_count net + 1,
                    total_established := total_established net + 1\<rparr>)"
      by blast
    have len: "length cs < MAX_CONNECTIONS h"
      using s estab(2) by (simp add: summary_def)
    have "summary h (net\<lparr>connections := (connections net)[nat (connection_count net) := c'],
                    connection_count := connection_count net + 1,
                    total_established := total_established net + 1\<rparr>)
            ls (cs @ [f])"
      using s len estab(2) net_ok_connection_update [OF ok estab(2)]
      by (simp add: summary_def)
    then show ?thesis
      using eq estab(1) by (simp add: scanned_records_Cons Some tcp_listener_def tcp_connection_def)
  next
    case other
    have eq: "tcp_line h w v line net = Inr net"
      by (rule tcp_line_other [OF Some other])
    have "summary h net (ls @ filter tcp_listener [f]) (cs @ filter tcp_connection [f])"
      using s other by (auto simp: summary_def tcp_listener_def tcp_connection_def)
    then show ?thesis
      using eq by (simp add: scanned_records_Cons Some)
  qed
qed

lemma scanned_records_snoc:
  "scanned_records v (x # xs) = scanned_records v [x] @ scanned_records v xs"
  by (simp add: scanned_records_Cons split: option.splits)

lemma tcp_loop_summary:
  assumes "summary h net ls cs"
  shows "\<exists>net'. tcp_loop h w v lines net = Inr net'
           \<and> summary h net' (ls @ filter tcp_listener (scanned_records v lines))
                            (cs @ filter tcp_connection (scanned_records v lines))"
  using assms
proof (induction lines arbitrary: net ls cs)
  case Nil
  then show ?case by simp
next
  case (Cons line lines)
  from tcp_line_summary [OF Cons.prems, of w v line] obtain net1 where
    st: "tcp_line h w v line net = Inr net1"
    and s1: "summary h net1 (ls @ filter tcp_listener (scanned_records v [line]))
                            (cs @ filter tcp_connection (scanned_records v [line]))"
    by blast
  from Cons.IH [OF s1] show ?case
    by (simp add: st scanned_records_snoc [of v line lines])
qed

lemma udp_line_summary:
  assumes s: "summary h net ls cs" and lt: "listener_count net < int (MAX_LISTENERS h)"
  shows "\<exists>net'. udp_line h w v line net = Inr net'
           \<and> summary h net' (ls @ filter udp_listener (scanned_records v [line])) cs"
proof (cases "sscanf_line v line")
  case None
  then show ?thesis using s by (simp add: udp_line_skip scanned_records_Cons)
next
  case (Some f)
  from s have ok: "net_ok h net" by (simp add: summary_def)
  show ?thesis
  proof (cases "state f = 0x07 \<or> local_port f > 0")
    case True
    from udp_line_store [OF Some True lt ok, of w] obtain l' where
      eq: "udp_line h w v line net =
           Inr (net\<lparr>listeners := (listeners net)[nat (listener_count net) := l'],
                    listener_count := listener_count net + 1,
                    total_listening := total_listening net + 1,
                    unusual_port_count :=
                      (if \<not> is_common_port (ucast (local_port f))
                       then unusual_port_count net + 1 else unusual_port_count net)\<rparr>)"
      by blast
    have len: "length ls < MAX_LISTENERS h"
      using s lt by (simp add: summary_def)
    have "summary h (net\<lparr>listeners := (listeners net)[nat (listener_count net) := l'],
                    listener_count := listener_count net + 1,
                    total_listening := total_listening net + 1,
                    unusual_port_count :=
                      (if \<not> is_common_port (ucast (local_port f))
                       then unusual_port_count net + 1 else unusual_port_count net)\<rparr>)
            (ls @ [f]) cs"
      using s len lt net_ok_listener_update [OF ok lt]
      by (simp add: summary_def unusual_def)
    then show ?thesis
      using eq True by (simp add: scanned_records_Cons Some udp_listener_def)
  next
    case False
    have eq: "udp_line h w v line net = Inr net"
      by (rule udp_line_other [OF Some False])
    show ?thesis
      using eq s False by (simp add: scanned_records_Cons Some udp_listener_def)
  qed
qed

lemma summary_full:
  assumes s: "summary h net ls cs" and full: "\<not> listener_count net < int (MAX_LISTENERS h)"
  shows "summary h net (ls @ extra) cs"
proof -
  from s full have "MAX_LISTENERS h \<le> length ls"
    by (simp add: summary_def)
  then show ?thesis
    using s by (simp add: summary_def)
qed

lemma udp_loop_summary:
  assumes "summary h net ls cs"
  shows "\<exists>net'. udp_loop h w v lines net = Inr net'
           \<and> summary h net' (ls @ filter udp_listener (scanned_records v lines)) cs"
  using assms
proof (induction lines arbitrary: net ls)
  case Nil
  then show ?case by simp
next
  case (Cons line lines)
  show ?case
  proof (cases "listener_count net < int (MAX_LISTENERS h)")
    case True
    from udp_line_summary [OF Cons.prems True, of w v line] obtain net1 where
      st: "udp_line h w v line net = Inr net1"
      and s1: "summary h net1 (ls @ filter udp_listener (scanned_records v [line])) cs"
      by blast
    from Cons.IH [OF s1] show ?thesis
      by (simp add: st True scanned_records_snoc [of v line lines])
  next
    case False
    then show ?thesis
      using summary_full [OF Cons.prems False] by simp
  qed
qed

lemma parse_tcp_file_loop:
  "parse_tcp_file h w filename net v =
     (case tcp_loop h w v (table_lines w filename) net of
        Inl e \<Rightarrow> Inl e
      | Inr net' \<Rightarrow> Inr (file_status w filename, net'))"
  by (simp add: parse_tcp_file_def table_lines_def file_status_def
           split: option.splits list.splits sum.splits)

lemma parse_udp_file_loop:
  "parse_udp_file h w filename net v =
     (case udp_loop h w v (table_lines w filename) net of
        Inl e \<Rightarrow> Inl e
      | Inr net' \<Rightarrow> Inr (file_status w filename, net'))"
  by (simp add: parse_udp_file_def table_lines_def file_status_def
           split: option.splits list.splits sum.splits)

lemma parse_tcp_file_summary:
  assumes "summary h net ls cs"
  shows "\<exists>net'. parse_tcp_file h w filename net v = Inr (file_status w filename, net')
           \<and> summary h net' (ls @ filter tcp_listener (table_records w filename v))
                            (cs @ filter tcp_connection (table_records w filename v))"
  using tcp_loop_summary [OF assms, of w v "table_lines w filename"]
  by (auto simp: parse_tcp_file_loop table_records_def)

lemma parse_udp_file_summary:
  assumes "summary h net ls cs"
  shows "\<exists>net'. parse_udp_file h w filename net v = Inr (file_status w filename, net')
           \<and> summary h net' (ls @ filter udp_listener (table_records w filename v)) cs"
  using udp_loop_summary [OF assms, of w v "table_lines w filename"]
  by (auto simp: parse_udp_file_loop table_records_def)

lemma summary_memset_zero: "summary h (memset_zero h net) [] []"
  by (simp add: summary_def net_ok_def memset_zero_def)

lemma probe_network_chain:
  "\<exists>net1 net2 net3 net4.
     parse_tcp_file h w ''/proc/net/tcp'' (memset_zero h net) False
       = Inr (file_status w ''/proc/net/tcp'', net1)
     \<and> parse_tcp_file h w ''/proc/net/tcp6'' net1 True
       = Inr (file_status w ''/proc/net/tcp6'', net2)
     \<and> parse_udp_file h w ''/proc/net/udp'' net2 False
       = Inr (file_status w ''/proc/net/udp'', net3)
     \<and> parse_udp_file h w ''/proc/net/udp6'' net3 True
       = Inr (file_status w ''/proc/net/udp6'', net4)
     \<and> probe_network h w net = Inr (0, net4)
     \<and> summary h net4 (observed_listeners w) (observed_connections w)"
proof -
  from parse_tcp_file_summary [OF summary_memset_zero, where w = w and filename = "''/proc/net/tcp''" and v = False and h = h and net1 = net]
  obtain net1 where
    p1: "parse_tcp_file h w ''/proc/net/tcp'' (memset_zero h net) False
          = Inr (file_status w ''/proc/net/tcp'', net1)"
    and s1: "summary h net1 (filter tcp_listener (table_records w ''/proc/net/tcp'' False))
                           (filter tcp_connection (table_records w ''/proc/net/tcp'' False))"
    by auto
  from parse_tcp_file_summary [OF s1, of w "''/proc/net/tcp6''" True]
  obtain net2 where
    p2: "parse_tcp_file h w ''/proc/net/tcp6'' net1 True
          = Inr (file_status w ''/proc/net/tcp6'', net2)"
    and s2: "summary h net2
               (filter tcp_listener (table_records w ''/proc/net/tcp'' False)
                @ filter tcp_listener (table_records w ''/proc/net/tcp6'' True))
               (observed_connections w)"
    by (auto simp: observed_connections_def)
  from parse_udp_file_summary [OF s2, of w "''/proc/net/udp''" False]
  obtain net3 where
    p3: "parse_udp_file h w ''/proc/net/udp'' net2 False
          = Inr (file_status w ''/proc/net/udp'', net3)"
    and s3: "summary h net3
               ((filter tcp_listener (table_records w ''/proc/net/tcp'' False)
                @ filter tcp_listener (table_records w ''/proc/net/tcp6'' True))
                @ filter udp_listener (table_records w ''/proc/net/udp'' False))
               (observed_connections w)"
    by auto
  from parse_udp_file_summary [OF s3, of w "''/proc/net/udp6''" True]
  obtain net4 where
    p4: "parse_udp_file h w ''/proc/net/udp6'' net3 True
          = Inr (file_status w ''/proc/net/udp6'', net4)"
    and s4: "summary h net4 (observed_listeners w) (observed_connections w)"
    by (auto simp: observed_listeners_def)
  have "probe_network h w net = Inr (0, net4)"
    unfolding probe_network_def Let_def by (simp only: p1 p2 p3 p4 sum.case prod.case)
  with p1 p2 p3 p4 s4 show ?thesis by blast
qed

lemma probe_network_summary:
  "\<exists>net'. probe_network h w net = Inr (0, net')
     \<and> summary h net' (observed_listeners w) (observed_connections w)"
  using probe_network_chain [of h w net] by blast

lemma length_show_nat: "n < 10 ^ k \<Longrightarrow> 0 < k \<Longrightarrow> length (show_nat n) \<le> k"
proof (induction k arbitrary: n)
  case 0
  then show ?case by simp
next
  case (Suc k)
  show ?case
  proof (cases "n < 10")
    case True
    then show ?thesis by (simp add: show_nat.simps [of n])
  next
    case False
    with Suc.prems have k: "0 < k" by (cases k) auto
    from Suc.prems have "n div 10 < 10 ^ k" by (simp add: less_mult_imp_div_less mult.commute)
    from Suc.IH [OF this k] False show ?thesis
      by (simp add: show_nat.simps [of n])
  qed
qed

lemma octet_show: "length (show_nat (unat ((x :: 32 word) AND 0xFF))) \<le> 3"
proof -
  have "unat (x AND 0xFF) \<le> unat (0xFF :: 32 word)"
    by (rule word_and_le1 [THEN word_le_nat_alt [THEN iffD1]])
  then have "unat (x AND 0xFF) < 10 ^ 3" by simp
  then show ?thesis by (rule length_show_nat) simp
qed

lemma digit_val_bound: "isxdigit c \<Longrightarrow> digit_val c < 16"
  by (auto simp: isxdigit_def isdigit_def digit_val_def)

lemma foldl_digits_bound:
  "list_all isxdigit ds \<Longrightarrow> a < 16 ^ k \<Longrightarrow>
     foldl (\<lambda>a c. 16 * a + digit_val c) a ds < 16 ^ (k + length ds)"
proof (induction ds arbitrary: a k)
  case Nil
  then show ?case by simp
next
  case (Cons c ds)
  from Cons.prems have c: "digit_val c < 16" and ds: "list_all isxdigit ds"
    by (simp_all add: digit_val_bound)
  from Cons.prems(2) have "a + 1 \<le> 16 ^ k" by simp
  then have "16 * (a + 1) \<le> 16 * 16 ^ k" by (rule mult_le_mono2)
  with c have "16 * a + digit_val c < 16 ^ (Suc k)" by simp
  from Cons.IH [OF ds this] show ?case by simp
qed

lemma digits_val_bound: "list_all isxdigit ds \<Longrightarrow> digits_val 16 ds < 16 ^ length ds"
  using foldl_digits_bound [of ds 0 0] by (simp add: digits_val_def)

lemma scan_hex_value:
  assumes "ds \<noteq> []" and "list_all isxdigit ds" and "length ds \<le> 16"
  shows "scan_hex ds = Some (word_of_nat (digits_val 16 ds), [])"
proof -
  have "digits_val 16 ds < 16 ^ length ds" by (rule digits_val_bound [OF assms(2)])
  also have "(16::nat) ^ length ds \<le> 16 ^ 16"
    by (rule power_increasing [OF assms(3)]) simp
  finally have lt: "digits_val 16 ds < 2 ^ 64" by simp
  have "(ucast (word_of_nat (digits_val 16 ds) :: 64 word) :: 32 word) = word_of_nat (digits_val 16 ds)"
    by transfer (simp add: take_bit_of_nat min_def)
  with lt show ?thesis
    by (simp add: scan_hex_xdigits [OF assms(1,2)] strtoul_value_def)
qed

lemma snprintf_fits: "length s < sz \<Longrightarrow> snprintf sz s = s"
  by (simp add: snprintf_def)

lemma dotted_quad_fits:
  "length (show_nat (unat ((a :: 32 word) AND 0xFF)) @ ''.'' @
           show_nat (unat ((b :: 32 word) AND 0xFF)) @ ''.'' @
           show_nat (unat ((c :: 32 word) AND 0xFF)) @ ''.'' @
           show_nat (unat ((d :: 32 word) AND 0xFF))) \<le> 15"
  using octet_show [of a] octet_show [of b] octet_show [of c] octet_show [of d]
  by simp


lemma inode_str_eq: "inode_str ino = ''socket:['' @ show_nat (unat ino) @ '']''"
proof -
  have "unat ino < 2 ^ 64" using unsigned_less [of ino] by simp
  also have "(2::nat) ^ 64 \<le> 10 ^ 20" by simp
  finally have "length (show_nat (unat ino)) \<le> 20" by (rule length_show_nat) simp
  then show ?thesis by (simp add: inode_str_def snprintf_def)
qed

lemma fd_loop_list_ex:
  "fd_loop w fd_path (inode_str ino) fds
     = list_ex (\<lambda>fd. names_socket w (snprintf 512 (fd_path @ ''/'' @ fd)) ino) fds"
proof (induction fds)
  case Nil
  then show ?case by simp
next
  case (Cons fd fds)
  let ?path = "snprintf 512 (fd_path @ ''/'' @ fd)"
  show ?case
  proof (cases "readlink w ?path")
    case None
    then have "readlink w (snprintf 512 (fd_path @ CHR ''/'' # fd)) = None" by simp
    then show ?thesis
      by (simp add: Cons.IH names_socket_def Let_def)
  next
    case (Some target)
    from Some have Some': "readlink w (snprintf 512 (fd_path @ CHR ''/'' # fd)) = Some target"
      by simp
    have take_min: "take (min (length target) 511) target = take 511 target"
      by (simp add: min_def)
    have hd: "names_socket w ?path ino
               = (min (length target) 511 > 0
                  \<and> c_str (take (min (length target) 511) target) = inode_str ino)"
      unfolding take_min by (simp add: names_socket_def Some' inode_str_eq)
    have "fd_loop w fd_path (inode_str ino) (fd # fds)
            = (if min (length target) 511 > 0
                  \<and> c_str (take (min (length target) 511) target) = inode_str ino
               then True else fd_loop w fd_path (inode_str ino) fds)"
      unfolding fd_loop.simps Let_def by (simp only: Some option.case)
    also have "\<dots> = (names_socket w ?path ino \<or> fd_loop w fd_path (inode_str ino) fds)"
      unfolding hd by (rule if_bool_eq_disj [THEN trans]) blast
    finally show ?thesis
      by (simp add: Cons.IH)
  qed
qed

lemma proc_loop_find:
  "proc_loop w (inode_str ino) entries =
     (case List.find (\<lambda>d. numeric_entry d \<and> holds_socket w ino d) entries of
        None \<Rightarrow> 0
      | Some d \<Rightarrow> atoi d)"
proof (induction entries)
  case Nil
  then show ?case by simp
next
  case (Cons d entries)
  show ?case
  proof (cases d)
    case Nil
    then show ?thesis by (simp add: Cons.IH numeric_entry_def)
  next
    case (Cons c cs)
    show ?thesis
    proof (cases "isdigit c")
      case False
      then show ?thesis by (simp add: Cons Cons.IH numeric_entry_def)
    next
      case True
      show ?thesis
      proof (cases "opendir w (fd_path_of d)")
        case None
        then show ?thesis
          using True by (simp add: Cons Cons.IH numeric_entry_def holds_socket_def fd_path_of_def Let_def)
      next
        case (Some fds)
        then show ?thesis
          using True
          by (simp add: Cons Cons.IH numeric_entry_def holds_socket_def fd_path_of_def Let_def
                fd_loop_list_ex)
      qed
    qed
  qed
qed

lemma find_pid_for_inode_find:
  "find_pid_for_inode w ino =
     (case opendir w ''/proc'' of
        None \<Rightarrow> 0
      | Some entries \<Rightarrow>
          (case List.find (\<lambda>d. numeric_entry d \<and> holds_socket w ino d) entries of
             None \<Rightarrow> 0
           | Some d \<Rightarrow> atoi d))"
  by (simp add: find_pid_for_inode_def proc_loop_find split: option.splits)

lemma udp_line_connections:
  assumes "udp_line h w v line net = Inr net'"
  shows "connections net' = connections net \<and> connection_count net' = connection_count net
         \<and> total_established net' = total_established net"
proof (cases "sscanf_line v line")
  case None
  with assms show ?thesis by (simp add: udp_line_def)
next
  case (Some f)
  show ?thesis
  proof (cases "state f = 0x07 \<or> local_port f > 0")
    case False
    with assms udp_line_other [OF Some False] show ?thesis by simp
  next
    case True
    then have c1: "(state f = 0x07 \<or> local_port f > 0) = True" by simp
    from assms show ?thesis
      unfolding udp_line_def Let_def
      by (simp only: Some c1 option.case if_True split: if_splits sum.splits) auto
  qed
qed

lemma udp_loop_connections:
  "udp_loop h w v lines net = Inr net' \<Longrightarrow>
     connections net' = connections net \<and> connection_count net' = connection_count net
     \<and> total_established net' = total_established net"
proof (induction lines arbitrary: net)
  case Nil
  then show ?case by simp
next
  case (Cons line lines)
  show ?case
  proof (cases "listener_count net < int (MAX_LISTENERS h)")
    case False
    with Cons.prems show ?thesis by simp
  next
    case True
    with Cons.prems obtain net1 where
      st: "udp_line h w v line net = Inr net1" and rest: "udp_loop h w v lines net1 = Inr net'"
      by (auto split: sum.splits)
    from Cons.IH [OF rest] udp_line_connections [OF st] show ?thesis by simp
  qed
qed

lemma tcp_loop_append:
  "tcp_loop h w v (xs @ ys) net =
     (case tcp_loop h w v xs net of Inl e \<Rightarrow> Inl e | Inr net1 \<Rightarrow> tcp_loop h w v ys net1)"
  by (induction xs arbitrary: net) (auto split: sum.splits)

lemma udp_loop_skip:
  assumes "sscanf_line v bad = None"
  shows "udp_loop h w v (pre @ bad # post) net = udp_loop h w v (pre @ post) net"
proof (induction pre arbitrary: net)
  case Nil
  show ?case
  proof (cases post)
    case Nil
    then show ?thesis by (simp add: udp_line_skip [OF assms])
  next
    case (Cons p ps)
    then show ?thesis by (simp add: udp_line_skip [OF assms])
  qed
next
  case (Cons p pre)
  then show ?case by (simp split: sum.splits)
qed

lemma udp_line_slots:
  assumes ok: "net_ok h net" and lt: "listener_count net < int (MAX_LISTENERS h)"
  shows "\<exists>net'. udp_line h w v line net = Inr net' \<and> net_ok h net'
           \<and> (net' = net
               \<or> listener_count net' = listener_count net + 1
                 \<and> (\<forall>i. i \<noteq> nat (listener_count net) \<longrightarrow> listeners net' ! i = listeners net ! i)
                 \<and> l_state (listeners net' ! nat (listener_count net))
                      = snprintf (sizeof_l_state h) ''LISTEN'')"
proof (cases "sscanf_line v line")
  case None
  then show ?thesis using ok by (simp add: udp_line_skip)
next
  case (Some f)
  show ?thesis
  proof (cases "state f = 0x07 \<or> local_port f > 0")
    case False
    from udp_line_other [OF Some False] ok show ?thesis by simp
  next
    case True
    from udp_line_store [OF Some True lt ok, of w] obtain l' where
      eq: "udp_line h w v line net =
           Inr (net\<lparr>listeners := (listeners net)[nat (listener_count net) := l'],
                    listener_count := listener_count net + 1,
                    total_listening := total_listening net + 1,
                    unusual_port_count :=
                      (if \<not> is_common_port (ucast (local_port f))
                       then unusual_port_count net + 1 else unusual_port_count net)\<rparr>)"
      and st: "l_state l' = snprintf (sizeof_l_state h) ''LISTEN''"
      by blast
    have rng: "nat (listener_count net) < length (listeners net)"
      using ok lt by (auto simp: net_ok_def)
    show ?thesis
      using eq st rng net_ok_listener_update [OF ok lt] by simp
  qed
qed

lemma udp_loop_slots:
  assumes "net_ok h net"
  shows "\<exists>net'. udp_loop h w v lines net = Inr net'
           \<and> listener_count net \<le> listener_count net'
           \<and> (\<forall>i < nat (listener_count net). listeners net' ! i = listeners net ! i)
           \<and> (\<forall>i. nat (listener_count net) \<le> i \<and> i < nat (listener_count net')
                 \<longrightarrow> l_state (listeners net' ! i) = snprintf (sizeof_l_state h) ''LISTEN'')"
  using assms
proof (induction lines arbitrary: net)
  case Nil
  then show ?case by auto
next
  case (Cons line lines)
  show ?case
  proof (cases "listener_count net < int (MAX_LISTENERS h)")
    case False
    then show ?thesis by auto
  next
    case True
    from udp_line_slots [OF Cons.prems True, of w v line] obtain net1 where
      st: "udp_line h w v line net = Inr net1" and ok1: "net_ok h net1"
      and alt: "net1 = net
               \<or> listener_count net1 = listener_count net + 1
                 \<and> (\<forall>i. i \<noteq> nat (listener_count net) \<longrightarrow> listeners net1 ! i = listeners net ! i)
                 \<and> l_state (listeners net1 ! nat (listener_count net))
                      = snprintf (sizeof_l_state h) ''LISTEN''"
      by blast
    from Cons.IH [OF ok1] obtain net' where
      lp: "udp_loop h w v lines net1 = Inr net'"
      and mono: "listener_count net1 \<le> listener_count net'"
      and keep: "\<forall>i < nat (listener_count net1). listeners net' ! i = listeners net1 ! i"
      and new: "\<forall>i. nat (listener_count net1) \<le> i \<and> i < nat (listener_count net')
                 \<longrightarrow> l_state (listeners net' ! i) = snprintf (sizeof_l_state h) ''LISTEN''"
      by blast
    have eq: "udp_loop h w v (line # lines) net = Inr net'"
      using True st lp by simp
    from alt show ?thesis
    proof
      assume "net1 = net"
      with eq mono keep new show ?thesis by simp
    next
      assume a: "listener_count net1 = listener_count net + 1
                 \<and> (\<forall>i. i \<noteq> nat (listener_count net) \<longrightarrow> listeners net1 ! i = listeners net ! i)
                 \<and> l_state (listeners net1 ! nat (listener_count net))
                      = snprintf (sizeof_l_state h) ''LISTEN''"
      have nn: "0 \<le> listener_count net" using Cons.prems by (simp add: net_ok_def)
      have n1: "nat (listener_count net1) = Suc (nat (listener_count net))"
        using a nn by simp
      have k: "\<forall>i < nat (listener_count net). listeners net' ! i = listeners net ! i"
        using keep a n1 by simp
      have n: "\<forall>i. nat (listener_count net) \<le> i \<and> i < nat (listener_count net')
                 \<longrightarrow> l_state (listeners net' ! i) = snprintf (sizeof_l_state h) ''LISTEN''"
      proof (intro allI impI)
        fix i assume i: "nat (listener_count net) \<le> i \<and> i < nat (listener_count net')"
        show "l_state (listeners net' ! i) = snprintf (sizeof_l_state h) ''LISTEN''"
        proof (cases "i = nat (listener_count net)")
          case True
          then have "listeners net' ! i = listeners net1 ! i" using keep n1 by simp
          with a True show ?thesis by simp
        next
          case False
          with i n1 have "nat (listener_count net1) \<le> i" by simp
          with new i show ?thesis by simp
        qed
      qed
      from eq mono a k n show ?thesis by simp
    qed
  qed
qed

lemma memset_zero_ok: "net_ok h (memset_zero h net)"
  by (simp add: net_ok_def memset_zero_def)

lemma is_common_port_iff:
  "is_common_port p \<longleftrightarrow>
     p \<in> {22, 25, 53, 80, 110, 143, 443, 465, 587, 993, 995,
          3306, 5432, 6379, 8080, 8443, 27017} \<or> p \<ge> 32768"
  by (auto simp: is_common_port_def common_ports_def)

lemma take_update_snoc:
  "n < length xs \<Longrightarrow> take (Suc n) (xs[n := x]) = take n xs @ [x]"
  by (simp add: take_Suc_conv_app_nth)

lemma stored_listeners_update:
  assumes "net_ok h net" "listener_count net < int (MAX_LISTENERS h)"
  shows "stored_listeners (net\<lparr>listeners := (listeners net)[nat (listener_count net) := l'],
                    listener_count := listener_count net + 1,
                    total_listening := t, unusual_port_count := u\<rparr>)
         = stored_listeners net @ [l']"
proof -
  from assms have n: "nat (listener_count net) < length (listeners net)"
    and nn: "0 \<le> listener_count net" by (auto simp: net_ok_def)
  from nn have "nat (listener_count net + 1) = Suc (nat (listener_count net))" by simp
  with n show ?thesis by (simp add: stored_listeners_def take_update_snoc)
qed

lemma stored_connections_update:
  assumes "net_ok h net" "connection_count net < int (MAX_CONNECTIONS h)"
  shows "stored_connections (net\<lparr>connections := (connections net)[nat (connection_count net) := c'],
                    connection_count := connection_count net + 1,
                    total_established := t\<rparr>)
         = stored_connections net @ [c']"
proof -
  from assms have n: "nat (connection_count net) < length (connections net)"
    and nn: "0 \<le> connection_count net" by (auto simp: net_ok_def)
  from nn have "nat (connection_count net + 1) = Suc (nat (connection_count net))" by simp
  with n show ?thesis by (simp add: stored_connections_def take_update_snoc)
qed

lemma parse_udp_file_total:
  assumes "net_ok h net"
  shows "\<exists>net'. parse_udp_file h w filename net v = Inr (file_status w filename, net')
           \<and> connections net' = connections net
           \<and> connection_count net' = connection_count net
           \<and> total_established net' = total_established net"
proof -
  from udp_loop_slots [OF assms, of w v "table_lines w filename"] obtain net' where
    lp: "udp_loop h w v (table_lines w filename) net = Inr net'" by blast
  from udp_loop_connections [OF lp] lp show ?thesis
    by (simp add: parse_udp_file_loop)
qed

lemma kernel_fits: "9 \<le> sz \<Longrightarrow> snprintf sz ''[kernel]'' = ''[kernel]''"
  by (simp add: snprintf_def)

lemma listen_fits: "7 \<le> sz \<Longrightarrow> snprintf sz ''LISTEN'' = ''LISTEN''"
  by (simp add: snprintf_def)

lemma stored_zero: "stored_connections (memset_zero h net) = []" "stored_listeners (memset_zero h net) = []"
  by (simp_all add: stored_connections_def stored_listeners_def memset_zero_def)

lemma parse_file_unavailable:
  assumes "fopen w filename = None"
  shows "file_status w filename = - 1"
    and "parse_tcp_file h w filename n v = Inr (- 1, n)"
    and "parse_udp_file h w filename n v = Inr (- 1, n)"
  using assms by (simp_all add: file_status_def parse_tcp_file_def parse_udp_file_def)

lemma tcp_loop_skip:
  assumes "sscanf_line v bad = None"
  shows "tcp_loop h w v (pre @ bad # post) net = tcp_loop h w v (pre @ post) net"
  by (simp add: tcp_loop_append tcp_line_skip [OF assms] split: sum.splits)

lemma hex_to_ip_octets:
  assumes "scan_hex hex = Some (addr, r)"
    and "unat (addr AND 0xFF) = a" and "unat (drop_bit 8 addr AND 0xFF) = b"
    and "unat (drop_bit 16 addr AND 0xFF) = c" and "unat (drop_bit 24 addr AND 0xFF) = d"
  shows "hex_to_ip hex ip_len False
           = Inr (snprintf ip_len (show_nat a @ ''.'' @ show_nat b @ ''.'' @ show_nat c @ ''.'' @ show_nat d))"
  unfolding hex_to_ip_def by (simp only: assms if_False option.case prod.case)

section \<open>The sample data evaluated\<close>

lemmas scan_defs = scan_hex_def scan_dec_def scan_xdigits_def scan_word_def scan_lit_def
  skip_ws_def scan_sign_def isspace_def isxdigit_def isdigit_def strtoul_value_def
  digits_val_def digit_val_def sscanf_line_def sscanf_fmt_def c_str_def NUL_def

lemma scan_tcp_listen_line: "sscanf_line False tcp_listen_line = Some tcp_listen_rec"
  by (simp add: scan_defs tcp_listen_line_def tcp_listen_text_def newline_def tcp_listen_rec_def)

lemma scan_tcp_estab_line: "sscanf_line False tcp_estab_line = Some tcp_estab_rec"
  by (simp add: scan_defs tcp_estab_line_def tcp_estab_text_def newline_def tcp_estab_rec_def)

lemma scan_tcp_wait_line: "sscanf_line False tcp_wait_line = Some tcp_wait_rec"
  by (simp add: scan_defs tcp_wait_line_def tcp_wait_text_def newline_def tcp_wait_rec_def)

lemma scan_tcp6_listen_line: "sscanf_line True tcp6_listen_line = Some tcp6_listen_rec"
  by (simp add: scan_defs tcp6_listen_line_def tcp6_listen_text_def newline_def tcp6_listen_rec_def)

lemma scan_tcp6_as_tcp: "sscanf_line False tcp6_listen_line = None"
  by (simp add: scan_defs tcp6_listen_line_def tcp6_listen_text_def newline_def)

lemma scan_bad_line: "sscanf_line False bad_line = None"
  by (simp add: scan_defs bad_line_def bad_text_def newline_def)

lemma scan_udp_unconn_line: "sscanf_line False udp_unconn_line = Some udp_unconn_rec"
  by (simp add: scan_defs udp_unconn_line_def udp_unconn_text_def newline_def udp_unconn_rec_def)

lemma scan_udp_conn_line: "sscanf_line False udp_conn_line = Some udp_conn_rec"
  by (simp add: scan_defs udp_conn_line_def udp_conn_text_def newline_def udp_conn_rec_def)


lemma atoi_500: "atoi ''500'' = 500"
  by (simp add: atoi_def scan_sign_def skip_ws_def isspace_def isdigit_def digits_val_def digit_val_def)

lemma atoi_1: "atoi ''1'' = 1"
  by (simp add: atoi_def scan_sign_def skip_ws_def isspace_def isdigit_def digits_val_def digit_val_def)

lemma find_pid_envoy: "find_pid_for_inode sample_world 12345 = 500"
  by (simp add: find_pid_for_inode_def sample_world_def inode_str_def atoi_500 atoi_1 snprintf_def
        show_nat.simps show_int_def isdigit_def c_str_def NUL_def Let_def split del: if_split)

lemma find_pid_nobody:
  "find_pid_for_inode sample_world 23456 = 0"
  "find_pid_for_inode sample_world 34567 = 0"
  "find_pid_for_inode sample_world 45678 = 0"
  by (simp_all add: find_pid_for_inode_def sample_world_def inode_str_def atoi_500 atoi_1 snprintf_def
        show_nat.simps show_int_def isdigit_def c_str_def NUL_def Let_def split del: if_split)

lemma fgets_take_line:
  "newline \<notin> set l \<Longrightarrow> length l < k \<Longrightarrow> fgets_take k (l @ newline # rest) = (l @ [newline], rest)"
proof (induction l arbitrary: k)
  case Nil
  then show ?case by (cases k) simp_all
next
  case (Cons c l)
  then obtain k' where k: "k = Suc k'" by (cases k) auto
  with Cons.prems have "newline \<notin> set l" "length l < k'" "c \<noteq> newline" by auto
  with Cons.IH [of k'] show ?case by (simp add: k)
qed

lemma fgets_line:
  "newline \<notin> set l \<Longrightarrow> Suc (length l) < n \<Longrightarrow> fgets n (l @ newline # rest) = Some (l @ [newline], rest)"
  by (simp add: fgets_def fgets_take_line)

lemma read_lines_Nil: "read_lines [] = []"
  by (simp add: read_lines.simps fgets_def)

lemma read_lines_line:
  "newline \<notin> set l \<Longrightarrow> length l < 511 \<Longrightarrow> read_lines (l @ newline # rest) = (l @ [newline]) # read_lines rest"
  by (subst read_lines.simps) (simp add: fgets_line)

lemma name_envoy: "get_process_name sample_world 500 [] 64 = ''envoy''"
proof -
  have "fgets 64 (''envoy'' @ newline # []) = Some (''envoy'' @ [newline], [])"
    by (rule fgets_line) (simp_all add: newline_def)
  then show ?thesis
    by (simp add: get_process_name_def sample_world_def snprintf_def show_nat.simps show_int_def
          c_str_def NUL_def newline_def Let_def split del: if_split)
qed


lemma sample_texts:
  "newline \<notin> set header_text" "length header_text < 511"
  "newline \<notin> set tcp_listen_text" "length tcp_listen_text < 511"
  "newline \<notin> set tcp_estab_text" "length tcp_estab_text < 511"
  "newline \<notin> set tcp_wait_text" "length tcp_wait_text < 511"
  "newline \<notin> set bad_text" "length bad_text < 511"
  "newline \<notin> set udp_unconn_text" "length udp_unconn_text < 511"
  "newline \<notin> set udp_conn_text" "length udp_conn_text < 511"
  by (simp_all add: newline_def header_text_def tcp_listen_text_def tcp_estab_text_def
        tcp_wait_text_def bad_text_def udp_unconn_text_def udp_conn_text_def)

lemma read_lines_tcp_text:
  "read_lines tcp_text = [header_line, tcp_listen_line, tcp_estab_line, tcp_wait_line, bad_line]"
proof -
  have "read_lines (header_line @ tcp_listen_line @ tcp_estab_line @ tcp_wait_line @ bad_line @ [])
          = [header_line, tcp_listen_line, tcp_estab_line, tcp_wait_line, bad_line]"
    unfolding header_line_def tcp_listen_line_def tcp_estab_line_def tcp_wait_line_def bad_line_def
    by (simp add: read_lines_line sample_texts read_lines_Nil)
  then show ?thesis by (simp add: tcp_text_def)
qed

lemma read_lines_udp_text:
  "read_lines udp_text = [header_line, udp_unconn_line, udp_conn_line]"
proof -
  have "read_lines (header_line @ udp_unconn_line @ udp_conn_line @ [])
          = [header_line, udp_unconn_line, udp_conn_line]"
    unfolding header_line_def udp_unconn_line_def udp_conn_line_def
    by (simp add: read_lines_line sample_texts read_lines_Nil)
  then show ?thesis by (simp add: udp_text_def)
qed

lemma sample_fopen:
  "fopen sample_world ''/proc/net/tcp'' = Some tcp_text"
  "fopen sample_world ''/proc/net/tcp6'' = None"
  "fopen sample_world ''/proc/net/udp'' = Some udp_text"
  "fopen sample_world ''/proc/net/udp6'' = None"
  by (simp_all add: sample_world_def)

lemma sample_table_lines:
  "table_lines sample_world ''/proc/net/tcp'' = [tcp_listen_line, tcp_estab_line, tcp_wait_line, bad_line]"
  "table_lines sample_world ''/proc/net/tcp6'' = []"
  "table_lines sample_world ''/proc/net/udp'' = [udp_unconn_line, udp_conn_line]"
  "table_lines sample_world ''/proc/net/udp6'' = []"
  by (simp_all add: table_lines_def sample_fopen read_lines_tcp_text read_lines_udp_text)

lemma sample_table_records:
  "table_records sample_world ''/proc/net/tcp'' False = [tcp_listen_rec, tcp_estab_rec, tcp_wait_rec]"
  "table_records sample_world ''/proc/net/tcp6'' True = []"
  "table_records sample_world ''/proc/net/udp'' False = [udp_unconn_rec, udp_conn_rec]"
  "table_records sample_world ''/proc/net/udp6'' True = []"
  by (simp_all add: table_records_def sample_table_lines scanned_records_Cons
        scan_tcp_listen_line scan_tcp_estab_line scan_tcp_wait_line scan_bad_line
        scan_udp_unconn_line scan_udp_conn_line)

lemma sample_observed:
  "observed_listeners sample_world = [tcp_listen_rec, udp_unconn_rec, udp_conn_rec]"
  "observed_connections sample_world = [tcp_estab_rec]"
  by (simp_all add: observed_listeners_def observed_connections_def sample_table_records
        tcp_listener_def tcp_connection_def udp_listener_def
        tcp_listen_rec_def tcp_estab_rec_def tcp_wait_rec_def udp_unconn_rec_def udp_conn_rec_def)

lemma sample_zero_counts:
  "listener_count (memset_zero sample_h net) = 0"
  "connection_count (memset_zero sample_h net) = 0"
  "total_listening (memset_zero sample_h net) = 0"
  "total_established (memset_zero sample_h net) = 0"
  "unusual_port_count (memset_zero sample_h net) = 0"
  "MAX_LISTENERS sample_h = 64"
  "MAX_CONNECTIONS sample_h = 128"
  by (simp_all add: memset_zero_def sample_h_def)

lemma sample_sizes:
  "sizeof_l_protocol sample_h = 8" "sizeof_l_local_addr sample_h = 64" "sizeof_l_state sample_h = 16"
  "sizeof_l_process_name sample_h = 64" "l_port_bits sample_h = 16"
  "sizeof_c_protocol sample_h = 8" "sizeof_c_local_addr sample_h = 64"
  "sizeof_c_remote_addr sample_h = 64" "sizeof_c_state sample_h = 16"
  "sizeof_c_process_name sample_h = 64" "c_port_bits sample_h = 16"
  "MAX_LISTENERS sample_h = 64" "MAX_CONNECTIONS sample_h = 128"
  by (simp_all add: sample_h_def)

lemma show_nat_samples:
  "show_nat 0 = ''0''" "show_nat 1 = ''1''" "show_nat 2 = ''2''" "show_nat 127 = ''127''"
  "show_nat 168 = ''168''" "show_nat 192 = ''192''" "show_nat (Suc 0) = ''1''"
  by (simp_all add: show_nat.simps)

lemmas hex_defs = scan_hex_def skip_ws_def scan_sign_def isspace_def isxdigit_def isdigit_def
  strtoul_value_def digits_val_def digit_val_def

lemma hex_to_ip_samples:
  "hex_to_ip ''00000000'' 64 False = Inr ''0.0.0.0''"
  "hex_to_ip ''0100007F'' 64 False = Inr ''127.0.0.1''"
  "hex_to_ip ''0101A8C0'' 64 False = Inr ''192.168.1.1''"
  "hex_to_ip ''0201A8C0'' 64 False = Inr ''192.168.1.2''"
proof -
  have s: "scan_hex ''00000000'' = Some (0, [])" "scan_hex ''0100007F'' = Some (0x0100007F, [])"
    "scan_hex ''0101A8C0'' = Some (0x0101A8C0, [])" "scan_hex ''0201A8C0'' = Some (0x0201A8C0, [])"
    by (simp_all add: hex_defs)
  show "hex_to_ip ''00000000'' 64 False = Inr ''0.0.0.0''"
    by (subst hex_to_ip_octets [OF s(1), of 0 0 0 0]) (simp_all add: show_nat_samples snprintf_def)
  show "hex_to_ip ''0100007F'' 64 False = Inr ''127.0.0.1''"
    by (subst hex_to_ip_octets [OF s(2), of 127 0 0 1]) (simp_all add: show_nat_samples snprintf_def)
  show "hex_to_ip ''0101A8C0'' 64 False = Inr ''192.168.1.1''"
    by (subst hex_to_ip_octets [OF s(3), of 192 168 1 1]) (simp_all add: show_nat_samples snprintf_def)
  show "hex_to_ip ''0201A8C0'' 64 False = Inr ''192.168.1.2''"
    by (subst hex_to_ip_octets [OF s(4), of 192 168 1 2]) (simp_all add: show_nat_samples snprintf_def)
qed

lemma holding_ok: "length ls \<le> 64 \<Longrightarrow> length cs \<le> 128 \<Longrightarrow> net_ok sample_h (holding ls cs u)"
  by (simp add: net_ok_def holding_def sample_h_def)

lemma holding_zero: "memset_zero sample_h net = holding [] [] 0"
  by (simp add: memset_zero_def holding_def sample_h_def)

lemma holding_listening: "listening k = holding (replicate k envoy_listener) [] 0"
  by (simp add: listening_def holding_def)

lemma slot_update:
  "n > length xs \<Longrightarrow>
     (xs @ replicate (n - length xs) z)[length xs := x] = (xs @ [x]) @ replicate (n - length (xs @ [x])) z"
proof -
  assume "n > length xs"
  then obtain m where m: "n - length xs = Suc m" by (cases "n - length xs") auto
  then have "n - length (xs @ [x]) = m" by simp
  with m show ?thesis by (simp add: list_update_append)
qed

lemma slot_free:
  "n > length xs \<Longrightarrow> (xs @ replicate (n - length xs) z) ! length xs = z"
  by (simp add: nth_append)

lemma holding_add_listener:
  assumes "length ls < 64"
  shows "(holding ls cs u)\<lparr>listeners := (listeners (holding ls cs u))[nat (listener_count (holding ls cs u)) := l],
           listener_count := listener_count (holding ls cs u) + 1,
           total_listening := total_listening (holding ls cs u) + 1,
           unusual_port_count := u'\<rparr> = holding (ls @ [l]) cs u'"
  using slot_update [where xs = ls and n = 64 and x = l and z = zero_listener] assms by (simp add: holding_def)

lemma holding_add_connection:
  assumes "length cs < 128"
  shows "(holding ls cs u)\<lparr>connections := (connections (holding ls cs u))[nat (connection_count (holding ls cs u)) := c],
           connection_count := connection_count (holding ls cs u) + 1,
           total_established := total_established (holding ls cs u) + 1\<rparr> = holding ls (cs @ [c]) u"
  using slot_update [where xs = cs and n = 128 and x = c and z = zero_connection] assms by (simp add: holding_def)

lemma holding_free_slots:
  "length ls < 64 \<Longrightarrow> listeners (holding ls cs u) ! nat (listener_count (holding ls cs u)) = zero_listener"
  "length cs < 128 \<Longrightarrow> connections (holding ls cs u) ! nat (connection_count (holding ls cs u)) = zero_connection"
  using slot_free [where xs = ls and n = 64 and z = zero_listener]
    slot_free [where xs = cs and n = 128 and z = zero_connection]
  by (simp_all add: holding_def)

lemma holding_counts:
  "listener_count (holding ls cs u) = int (length ls)"
  "connection_count (holding ls cs u) = int (length cs)"
  "unusual_port_count (holding ls cs u) = u"
  by (simp_all add: holding_def)

lemma tcp_listen_step:
  assumes ls: "length ls < 64" and cs: "length cs \<le> 128"
  shows "tcp_line sample_h sample_world False tcp_listen_line (holding ls cs u)
           = Inr (holding (ls @ [envoy_listener]) cs u)"
proof -
  let ?net = "holding ls cs u"
  have lt: "listener_count ?net < int (MAX_LISTENERS sample_h)"
    using ls by (simp add: holding_counts sample_sizes)
  have st: "state tcp_listen_rec = 0x0A" by (simp add: tcp_listen_rec_def)
  have ok: "net_ok sample_h ?net" using ls cs by (simp add: holding_ok)
  from tcp_line_listen [OF scan_tcp_listen_line st lt ok, of sample_world] obtain l' where
    eq: "tcp_line sample_h sample_world False tcp_listen_line ?net =
           Inr (?net\<lparr>listeners := (listeners ?net)[nat (listener_count ?net) := l'],
                    listener_count := listener_count ?net + 1,
                    total_listening := total_listening ?net + 1,
                    unusual_port_count :=
                      (if \<not> is_common_port (ucast (local_port tcp_listen_rec))
                       then unusual_port_count ?net + 1 else unusual_port_count ?net)\<rparr>)"
    and f1: "l_protocol l' = snprintf (sizeof_l_protocol sample_h) (if False then ''tcp6'' else ''tcp'')"
    and f2: "l_local_port l' = store_port (l_port_bits sample_h) (local_port tcp_listen_rec)"
    and f3: "l_state l' = snprintf (sizeof_l_state sample_h) ''LISTEN''"
    and f4: "l_pid l' = find_pid_for_inode sample_world (inode tcp_listen_rec)"
    and f5: "l_process_name l' =
              (if find_pid_for_inode sample_world (inode tcp_listen_rec) > 0
               then get_process_name sample_world (find_pid_for_inode sample_world (inode tcp_listen_rec))
                      (l_process_name (listeners ?net ! nat (listener_count ?net)))
                      (sizeof_l_process_name sample_h)
               else snprintf (sizeof_l_process_name sample_h) ''[kernel]'')"
    and f6: "hex_to_ip (local_addr_hex tcp_listen_rec) (sizeof_l_local_addr sample_h) False
               = Inr (l_local_addr l')"
    by blast
  have r: "inode tcp_listen_rec = 12345" "local_port tcp_listen_rec = 0x20FB"
    "local_addr_hex tcp_listen_rec = ''00000000''"
    by (simp_all add: tcp_listen_rec_def)
  have l': "l' = envoy_listener"
  proof (rule net_listener.equality)
    show "l_protocol l' = l_protocol envoy_listener"
      by (simp add: f1 envoy_listener_def sample_sizes snprintf_def)
    show "l_local_addr l' = l_local_addr envoy_listener"
      using f6 by (simp add: r sample_sizes hex_to_ip_samples envoy_listener_def)
    show "l_local_port l' = l_local_port envoy_listener"
      by (simp add: f2 r envoy_listener_def sample_sizes store_port_def)
    show "l_state l' = l_state envoy_listener"
      by (simp add: f3 envoy_listener_def sample_sizes snprintf_def)
    show "l_pid l' = l_pid envoy_listener"
      by (simp add: f4 r find_pid_envoy envoy_listener_def)
    show "l_process_name l' = l_process_name envoy_listener"
      by (simp add: f5 r find_pid_envoy holding_free_slots(1) [OF ls] zero_listener_def sample_sizes
            name_envoy envoy_listener_def)
    show "net_listener.more l' = net_listener.more envoy_listener" by simp
  qed
  have common: "is_common_port (ucast (local_port tcp_listen_rec))"
    by (simp add: r is_common_port_iff)
  then have u: "(if \<not> is_common_port (ucast (local_port tcp_listen_rec))
                  then unusual_port_count ?net + 1 else unusual_port_count ?net) = u"
    by (simp add: holding_counts)
  show ?thesis
    unfolding eq l' u
    by (simp only: holding_add_listener [OF ls])
qed

lemma tcp_estab_step:
  assumes ls: "length ls \<le> 64" and cs: "length cs < 128"
  shows "tcp_line sample_h sample_world False tcp_estab_line (holding ls cs u)
           = Inr (holding ls (cs @ [peer_connection]) u)"
proof -
  let ?net = "holding ls cs u"
  have lt: "connection_count ?net < int (MAX_CONNECTIONS sample_h)"
    using cs by (simp add: holding_counts sample_sizes)
  have st: "state tcp_estab_rec = 0x01" by (simp add: tcp_estab_rec_def)
  have ok: "net_ok sample_h ?net" using ls cs by (simp add: holding_ok)
  from tcp_line_estab [OF scan_tcp_estab_line st lt ok, of sample_world] obtain c' where
    eq: "tcp_line sample_h sample_world False tcp_estab_line ?net =
           Inr (?net\<lparr>connections := (connections ?net)[nat (connection_count ?net) := c'],
                    connection_count := connection_count ?net + 1,
                    total_established := total_established ?net + 1\<rparr>)"
    and f1: "c_protocol c' = snprintf (sizeof_c_protocol sample_h) (if False then ''tcp6'' else ''tcp'')"
    and f2: "c_local_port c' = store_port (c_port_bits sample_h) (local_port tcp_estab_rec)"
    and f2': "c_remote_port c' = store_port (c_port_bits sample_h) (remote_port tcp_estab_rec)"
    and f3: "c_state c' = snprintf (sizeof_c_state sample_h) ''ESTABLISHED''"
    and f4: "c_pid c' = find_pid_for_inode sample_world (inode tcp_estab_rec)"
    and f5: "c_process_name c' =
              (if find_pid_for_inode sample_world (inode tcp_estab_rec) > 0
               then get_process_name sample_world (find_pid_for_inode sample_world (inode tcp_estab_rec))
                      (c_process_name (connections ?net ! nat (connection_count ?net)))
                      (sizeof_c_process_name sample_h)
               else snprintf (sizeof_c_process_name sample_h) ''[kernel]'')"
    and f6: "hex_to_ip (local_addr_hex tcp_estab_rec) (sizeof_c_local_addr sample_h) False
               = Inr (c_local_addr c')"
    and f7: "hex_to_ip (remote_addr_hex tcp_estab_rec) (sizeof_c_remote_addr sample_h) False
               = Inr (c_remote_addr c')"
    by blast
  have r: "inode tcp_estab_rec = 23456" "local_port tcp_estab_rec = 0x9C40"
    "remote_port tcp_estab_rec = 0x01BB"
    "local_addr_hex tcp_estab_rec = ''0101A8C0''" "remote_addr_hex tcp_estab_rec = ''0201A8C0''"
    by (simp_all add: tcp_estab_rec_def)
  have c': "c' = peer_connection"
  proof (rule net_connection.equality)
    show "c_protocol c' = c_protocol peer_connection"
      by (simp add: f1 peer_connection_def sample_sizes snprintf_def)
    show "c_local_addr c' = c_local_addr peer_connection"
      using f6 by (simp add: r sample_sizes hex_to_ip_samples peer_connection_def)
    show "c_remote_addr c' = c_remote_addr peer_connection"
      using f7 by (simp add: r sample_sizes hex_to_ip_samples peer_connection_def)
    show "c_local_port c' = c_local_port peer_connection"
      by (simp add: f2 r peer_connection_def sample_sizes store_port_def)
    show "c_remote_port c' = c_remote_port peer_connection"
      by (simp add: f2' r peer_connection_def sample_sizes store_port_def)
    show "c_state c' = c_state peer_connection"
      by (simp add: f3 peer_connection_def sample_sizes snprintf_def)
    show "c_pid c' = c_pid peer_connection"
      by (simp add: f4 r find_pid_nobody peer_connection_def)
    show "c_process_name c' = c_process_name peer_connection"
      by (simp add: f5 r find_pid_nobody sample_sizes snprintf_def peer_connection_def)
    show "net_connection.more c' = net_connection.more peer_connection" by simp
  qed
  show ?thesis
    unfolding eq c'
    by (simp only: holding_add_connection [OF cs])
qed

lemma tcp_wait_step:
  "tcp_line sample_h sample_world False tcp_wait_line net = Inr net"
  by (rule tcp_line_other [OF scan_tcp_wait_line]) (simp_all add: tcp_wait_rec_def)

lemma udp_step:
  assumes sc: "sscanf_line False line = Some f"
    and st: "state f = 0x07 \<or> local_port f > 0"
    and ino: "find_pid_for_inode sample_world (inode f) = 0"
    and ip: "hex_to_ip (local_addr_hex f) 64 False = Inr addr"
    and port: "ucast (local_port f) = (p :: 16 word)"
    and ls: "length ls < 64" and cs: "length cs \<le> 128"
  shows "udp_line sample_h sample_world False line (holding ls cs u)
           = Inr (holding (ls @ [\<lparr>l_protocol = ''udp'', l_local_addr = addr,
                                   l_local_port = take_bit 16 (local_port f),
                                   l_state = ''LISTEN'', l_pid = 0,
                                   l_process_name = ''[kernel]''\<rparr>]) cs
                   (if is_common_port p then u else u + 1))"
proof -
  let ?net = "holding ls cs u"
  let ?l = "\<lparr>l_protocol = ''udp'', l_local_addr = addr,
             l_local_port = take_bit 16 (local_port f),
             l_state = ''LISTEN'', l_pid = 0, l_process_name = ''[kernel]''\<rparr>"
  have lt: "listener_count ?net < int (MAX_LISTENERS sample_h)"
    using ls by (simp add: holding_counts sample_sizes)
  have ok: "net_ok sample_h ?net" using ls cs by (simp add: holding_ok)
  from udp_line_store [OF sc st lt ok, of sample_world] obtain l' where
    eq: "udp_line sample_h sample_world False line ?net =
           Inr (?net\<lparr>listeners := (listeners ?net)[nat (listener_count ?net) := l'],
                    listener_count := listener_count ?net + 1,
                    total_listening := total_listening ?net + 1,
                    unusual_port_count :=
                      (if \<not> is_common_port (ucast (local_port f))
                       then unusual_port_count ?net + 1 else unusual_port_count ?net)\<rparr>)"
    and f1: "l_protocol l' = snprintf (sizeof_l_protocol sample_h) (if False then ''udp6'' else ''udp'')"
    and f2: "l_local_port l' = store_port (l_port_bits sample_h) (local_port f)"
    and f3: "l_state l' = snprintf (sizeof_l_state sample_h) ''LISTEN''"
    and f4: "l_pid l' = find_pid_for_inode sample_world (inode f)"
    and f5: "l_process_name l' =
              (if find_pid_for_inode sample_world (inode f) > 0
               then get_process_name sample_world (find_pid_for_inode sample_world (inode f))
                      (l_process_name (listeners ?net ! nat (listener_count ?net)))
                      (sizeof_l_process_name sample_h)
               else snprintf (sizeof_l_process_name sample_h) ''[kernel]'')"
    and f6: "hex_to_ip (local_addr_hex f) (sizeof_l_local_addr sample_h) False
               = Inr (l_local_addr l')"
    by blast
  have l': "l' = ?l"
  proof (rule net_listener.equality)
    show "l_protocol l' = l_protocol ?l" by (simp add: f1 sample_sizes snprintf_def)
    show "l_local_addr l' = l_local_addr ?l" using f6 ip by (simp add: sample_sizes)
    show "l_local_port l' = l_local_port ?l" by (simp add: f2 sample_sizes store_port_def)
    show "l_state l' = l_state ?l" by (simp add: f3 sample_sizes snprintf_def)
    show "l_pid l' = l_pid ?l" by (simp add: f4 ino)
    show "l_process_name l' = l_process_name ?l" by (simp add: f5 ino sample_sizes snprintf_def)
    show "net_listener.more l' = net_listener.more ?l" by simp
  qed
  have u: "(if \<not> is_common_port (ucast (local_port f))
            then unusual_port_count ?net + 1 else unusual_port_count ?net)
           = (if is_common_port p then u else u + 1)"
    by (simp add: port holding_counts)
  show ?thesis
    unfolding eq l' u
    by (simp only: holding_add_listener [OF ls])
qed

lemma udp_unconn_step:
  assumes "length ls < 64" "length cs \<le> 128"
  shows "udp_line sample_h sample_world False udp_unconn_line (holding ls cs u)
           = Inr (holding (ls @ [dns_listener]) cs u)"
  using udp_step [OF scan_udp_unconn_line _ _ _ _ assms, of "''0.0.0.0''" 53 u]
  by (simp add: udp_unconn_rec_def find_pid_nobody hex_to_ip_samples is_common_port_iff
        dns_listener_def)

lemma udp_conn_step:
  assumes "length ls < 64" "length cs \<le> 128"
  shows "udp_line sample_h sample_world False udp_conn_line (holding ls cs u)
           = Inr (holding (ls @ [stray_listener]) cs (u + 1))"
  using udp_step [OF scan_udp_conn_line _ _ _ _ assms, of "''127.0.0.1''" 9999 u]
  by (simp add: udp_conn_rec_def find_pid_nobody hex_to_ip_samples is_common_port_iff
        stray_listener_def)

lemma sample_file_status:
  "file_status sample_world ''/proc/net/tcp'' = 0"
  "file_status sample_world ''/proc/net/tcp6'' = - 1"
  "file_status sample_world ''/proc/net/udp'' = 0"
  "file_status sample_world ''/proc/net/udp6'' = - 1"
  by (simp_all add: file_status_def sample_fopen read_lines_tcp_text read_lines_udp_text)

lemma probe_sample_world:
  "probe_network sample_h sample_world stale_net
     = Inr (0, holding [envoy_listener, dns_listener, stray_listener] [peer_connection] 1)"
proof -
  have p1: "parse_tcp_file sample_h sample_world ''/proc/net/tcp'' (holding [] [] 0) False
              = Inr (0, holding [envoy_listener] [peer_connection] 0)"
    by (simp add: parse_tcp_file_loop sample_table_lines sample_file_status
          tcp_listen_step tcp_estab_step tcp_wait_step tcp_line_skip [OF scan_bad_line])
  have p2: "parse_tcp_file sample_h sample_world ''/proc/net/tcp6'' n True = Inr (- 1, n)" for n
    by (simp add: parse_tcp_file_loop sample_table_lines sample_file_status)
  have p3: "parse_udp_file sample_h sample_world ''/proc/net/udp''
              (holding [envoy_listener] [peer_connection] 0) False
              = Inr (0, holding [envoy_listener, dns_listener, stray_listener] [peer_connection] 1)"
    by (simp add: parse_udp_file_loop sample_table_lines sample_file_status holding_counts
          sample_sizes udp_unconn_step udp_conn_step)
  have p4: "parse_udp_file sample_h sample_world ''/proc/net/udp6'' n True = Inr (- 1, n)" for n
    by (simp add: parse_udp_file_loop sample_table_lines sample_file_status)
  show ?thesis
    unfolding probe_network_def Let_def holding_zero
    by (simp only: p1 p2 p3 p4 sum.case prod.case)
qed

lemma listening_0: "memset_zero sample_h net = listening 0"
  by (simp add: memset_zero_def listening_def sample_h_def)

lemma listening_64: "listening 64 = full_net"
  by (simp add: listening_def full_net_def)

lemma listening_ok: "k \<le> 64 \<Longrightarrow> net_ok sample_h (listening k)"
  by (simp add: net_ok_def listening_def sample_h_def)

lemma tcp_line_listening:
  assumes "k < 64"
  shows "tcp_line sample_h sample_world False tcp_listen_line (listening k) = Inr (listening (Suc k))"
proof -
  have "replicate k envoy_listener @ [envoy_listener] = replicate (Suc k) envoy_listener"
    by (simp add: replicate_append_same)
  with tcp_listen_step [of "replicate k envoy_listener" "[]" 0] assms show ?thesis
    by (simp add: holding_listening)
qed

lemma tcp_loop_listening:
  "k + m \<le> 64 \<Longrightarrow>
     tcp_loop sample_h sample_world False (replicate m tcp_listen_line) (listening k)
       = Inr (listening (k + m))"
proof (induction m arbitrary: k)
  case 0
  then show ?case by simp
next
  case (Suc m)
  then have "k < 64" and "Suc k + m \<le> 64" by simp_all
  from tcp_line_listening [OF this(1)] Suc.IH [OF this(2)] show ?case by simp
qed

lemma tcp_line_full:
  "tcp_line sample_h sample_world False tcp_listen_line full_net = Inr full_net"
proof (rule tcp_line_other [OF scan_tcp_listen_line])
  show "\<not> (state tcp_listen_rec = 0x0A \<and> listener_count full_net < int (MAX_LISTENERS sample_h))"
    by (simp add: full_net_def sample_h_def)
  show "\<not> (state tcp_listen_rec = 0x01 \<and> connection_count full_net < int (MAX_CONNECTIONS sample_h))"
    by (simp add: tcp_listen_rec_def)
qed

section \<open>The claims\<close>


text \<open>
  C1. After a probe the stored listener sequence and the stored connection sequence
  have the length \<open>min (observed matching records) capacity\<close>, so neither exceeds its
  capacity; the totals equal the stored counts, and the unusual-port count counts the
  unusual ports among the stored listeners only: records dropped for lack of room are
  missing from the totals too.
\<close>

theorem probe_network_counts:
  "\<exists>net'. probe_network h w net = Inr (0, net')
     \<and> length (stored_listeners net') = min (length (observed_listeners w)) (MAX_LISTENERS h)
     \<and> length (stored_connections net') = min (length (observed_connections w)) (MAX_CONNECTIONS h)
     \<and> listener_count net' = int (min (length (observed_listeners w)) (MAX_LISTENERS h))
     \<and> connection_count net' = int (min (length (observed_connections w)) (MAX_CONNECTIONS h))
     \<and> listener_count net' \<le> int (MAX_LISTENERS h)
     \<and> connection_count net' \<le> int (MAX_CONNECTIONS h)
     \<and> total_listening net' = listener_count net'
     \<and> total_established net' = connection_count net'
     \<and> unusual_port_count net'
         = int (length (filter unusual (take (MAX_LISTENERS h) (observed_listeners w))))"
proof -
  from probe_network_summary [of h w net] obtain net' where
    p: "probe_network h w net = Inr (0, net')"
    and s: "summary h net' (observed_listeners w) (observed_connections w)"
    by blast
  from s have "length (stored_listeners net') = min (length (observed_listeners w)) (MAX_LISTENERS h)"
    and "length (stored_connections net') = min (length (observed_connections w)) (MAX_CONNECTIONS h)"
    by (simp_all add: summary_def net_ok_def stored_listeners_def stored_connections_def)
  with p s show ?thesis
    by (intro exI [of _ net']) (simp add: summary_def net_ok_def)
qed

text \<open>
  C2, with the capacities. A TCP record that \<^verbatim>\<open>sscanf\<close> converted is stored as a listener exactly
  when its state is 10 and the listener array has room, as a connection exactly when its
  state is 1 and the connection array has room; otherwise the structure does not change:
  nothing is stored and no counter moves.
\<close>

theorem tcp_line_classification:
  assumes sc: "sscanf_line v line = Some f" and ok: "net_ok h net"
  shows "\<exists>net'. tcp_line h w v line net = Inr net' \<and>
     (if state f = 0x0A \<and> listener_count net < int (MAX_LISTENERS h) then
        (\<exists>l. stored_listeners net' = stored_listeners net @ [l]
              \<and> l_protocol l = snprintf (sizeof_l_protocol h) (if v then ''tcp6'' else ''tcp'')
              \<and> l_state l = snprintf (sizeof_l_state h) ''LISTEN'')
        \<and> listener_count net' = listener_count net + 1
        \<and> total_listening net' = total_listening net + 1
        \<and> stored_connections net' = stored_connections net
        \<and> connection_count net' = connection_count net
        \<and> total_established net' = total_established net
      else if state f = 0x01 \<and> connection_count net < int (MAX_CONNECTIONS h) then
        (\<exists>c. stored_connections net' = stored_connections net @ [c]
              \<and> c_protocol c = snprintf (sizeof_c_protocol h) (if v then ''tcp6'' else ''tcp'')
              \<and> c_state c = snprintf (sizeof_c_state h) ''ESTABLISHED'')
        \<and> connection_count net' = connection_count net + 1
        \<and> total_established net' = total_established net + 1
        \<and> stored_listeners net' = stored_listeners net
        \<and> listener_count net' = listener_count net
        \<and> total_listening net' = total_listening net
        \<and> unusual_port_count net' = unusual_port_count net
      else net' = net)"
proof -
  consider (listen) "state f = 0x0A" "listener_count net < int (MAX_LISTENERS h)"
    | (estab) "\<not> (state f = 0x0A \<and> listener_count net < int (MAX_LISTENERS h))"
              "state f = 0x01" "connection_count net < int (MAX_CONNECTIONS h)"
    | (other) "\<not> (state f = 0x0A \<and> listener_count net < int (MAX_LISTENERS h))"
              "\<not> (state f = 0x01 \<and> connection_count net < int (MAX_CONNECTIONS h))"
    by blast
  then show ?thesis
  proof cases
    case listen
    from tcp_line_listen [OF sc listen ok, of w] obtain l' where
      eq: "tcp_line h w v line net =
           Inr (net\<lparr>listeners := (listeners net)[nat (listener_count net) := l'],
                    listener_count := listener_count net + 1,
                    total_listening := total_listening net + 1,
                    unusual_port_count :=
                      (if \<not> is_common_port (ucast (local_port f))
                       then unusual_port_count net + 1 else unusual_port_count net)\<rparr>)"
      and pr: "l_protocol l' = snprintf (sizeof_l_protocol h) (if v then ''tcp6'' else ''tcp'')"
      and st: "l_state l' = snprintf (sizeof_l_state h) ''LISTEN''"
      by blast
    note sl = stored_listeners_update [OF ok listen(2), where l' = l']
    have c1: "(state f = 0x0A \<and> listener_count net < int (MAX_LISTENERS h)) = True"
      using listen by simp
    show ?thesis
      unfolding eq c1 if_True
      by (intro exI [of _ "net\<lparr>listeners := (listeners net)[nat (listener_count net) := l'],
                    listener_count := listener_count net + 1,
                    total_listening := total_listening net + 1,
                    unusual_port_count :=
                      (if \<not> is_common_port (ucast (local_port f))
                       then unusual_port_count net + 1 else unusual_port_count net)\<rparr>"]
                conjI refl exI [of _ l'] sl pr st)
         (simp_all add: stored_connections_def)
  next
    case estab
    from tcp_line_estab [OF sc estab(2,3) ok, of w] obtain c' where
      eq: "tcp_line h w v line net =
           Inr (net\<lparr>connections := (connections net)[nat (connection_count net) := c'],
                    connection_count := connection_count net + 1,
                    total_established := total_established net + 1\<rparr>)"
      and pr: "c_protocol c' = snprintf (sizeof_c_protocol h) (if v then ''tcp6'' else ''tcp'')"
      and st: "c_state c' = snprintf (sizeof_c_state h) ''ESTABLISHED''"
      by blast
    note sl = stored_connections_update [OF ok estab(3), where c' = c']
    have c1: "(state f = 0x0A \<and> listener_count net < int (MAX_LISTENERS h)) = False"
      and c2: "(state f = 0x01 \<and> connection_count net < int (MAX_CONNECTIONS h)) = True"
      using estab by simp_all
    show ?thesis
      unfolding eq c1 c2 if_True if_False
      by (intro exI [of _ "net\<lparr>connections := (connections net)[nat (connection_count net) := c'],
                    connection_count := connection_count net + 1,
                    total_established := total_established net + 1\<rparr>"]
                conjI refl exI [of _ c'] sl pr st)
         (simp_all add: stored_listeners_def)
  next
    case other
    have c1: "(state f = 0x0A \<and> listener_count net < int (MAX_LISTENERS h)) = False"
      and c2: "(state f = 0x01 \<and> connection_count net < int (MAX_CONNECTIONS h)) = False"
      using other by simp_all
    show ?thesis
      unfolding tcp_line_other [OF sc other] c1 c2 if_False by simp
  qed
qed

theorem tcp_line_classification_witness:
  "sscanf_line False tcp_listen_line = Some tcp_listen_rec
   \<and> net_ok sample_h (memset_zero sample_h stale_net)
   \<and> state tcp_listen_rec = 0x0A
   \<and> (\<exists>net'. tcp_line sample_h sample_world False tcp_listen_line (memset_zero sample_h stale_net)
                 = Inr net'
          \<and> listener_count net' = 1 \<and> total_listening net' = 1 \<and> connection_count net' = 0)"
  using tcp_line_classification [OF scan_tcp_listen_line memset_zero_ok [of sample_h stale_net],
          where w = sample_world]
  by (auto simp add: scan_tcp_listen_line memset_zero_ok sample_zero_counts tcp_listen_rec_def)

text \<open>
  C2 without the capacities fails when the array is full: of 65 listening records the
  first 64 are stored and the 65th, though converted and in state 10, leaves the
  structure as it is.
\<close>

theorem tcp_line_classification_counterexample:
  "sscanf_line False tcp_listen_line = Some tcp_listen_rec
   \<and> state tcp_listen_rec = 0x0A
   \<and> tcp_loop sample_h sample_world False (replicate 64 tcp_listen_line)
        (memset_zero sample_h stale_net) = Inr full_net
   \<and> tcp_line sample_h sample_world False tcp_listen_line full_net = Inr full_net
   \<and> tcp_loop sample_h sample_world False (replicate 65 tcp_listen_line)
        (memset_zero sample_h stale_net) = Inr full_net
   \<and> listener_count full_net = 64
   \<and> length (stored_listeners full_net) = 64"
proof -
  have a: "tcp_loop sample_h sample_world False (replicate 64 tcp_listen_line)
        (memset_zero sample_h stale_net) = Inr full_net"
    using tcp_loop_listening [of 0 64] by (simp add: listening_0 listening_64)
  have "replicate (Suc 64) tcp_listen_line = replicate 64 tcp_listen_line @ [tcp_listen_line]"
    by (simp only: replicate_Suc replicate_append_same)
  then have "replicate 65 tcp_listen_line = replicate 64 tcp_listen_line @ [tcp_listen_line]"
    by simp
  then have b: "tcp_loop sample_h sample_world False (replicate 65 tcp_listen_line)
        (memset_zero sample_h stale_net) = Inr full_net"
    by (simp only: tcp_loop_append a sum.case tcp_loop.simps tcp_line_full)
  show ?thesis
    using a b
    by (simp add: scan_tcp_listen_line tcp_line_full)
       (simp add: tcp_listen_rec_def full_net_def stored_listeners_def)
qed

text \<open>
  C3. The loop of \<^verbatim>\<open>parse_udp_file\<close> converts a line only while the listener array has
  room; once it is full the loop ends and no further line reaches \<^verbatim>\<open>sscanf\<close>. A UDP
  record that the loop converted is stored as a listener exactly when its state is 7 or
  its local port is not zero, and otherwise the structure does not change. No UDP line
  and no UDP table touches the connection array, the connection count or the total of
  established connections.
\<close>

theorem udp_line_classification:
  assumes sc: "sscanf_line v line = Some f" and ok: "net_ok h net"
  shows "(listener_count net < int (MAX_LISTENERS h) \<longrightarrow>
          (\<exists>net'. udp_line h w v line net = Inr net'
             \<and> udp_loop h w v (line # rest) net = udp_loop h w v rest net'
             \<and> (if state f = 0x07 \<or> local_port f \<noteq> 0 then
                  (\<exists>l. stored_listeners net' = stored_listeners net @ [l]
                        \<and> l_protocol l = snprintf (sizeof_l_protocol h) (if v then ''udp6'' else ''udp''))
                  \<and> listener_count net' = listener_count net + 1
                  \<and> total_listening net' = total_listening net + 1
                else net' = net)
             \<and> connections net' = connections net
             \<and> connection_count net' = connection_count net
             \<and> total_established net' = total_established net))
     \<and> (\<not> listener_count net < int (MAX_LISTENERS h) \<longrightarrow>
          udp_loop h w v (line # rest) net = Inr net)
     \<and> (\<exists>net2. parse_udp_file h w filename net v = Inr (file_status w filename, net2)
            \<and> connections net2 = connections net
            \<and> connection_count net2 = connection_count net
            \<and> total_established net2 = total_established net)"
proof (intro conjI impI)
  assume lt: "listener_count net < int (MAX_LISTENERS h)"
  show "\<exists>net'. udp_line h w v line net = Inr net'
             \<and> udp_loop h w v (line # rest) net = udp_loop h w v rest net'
             \<and> (if state f = 0x07 \<or> local_port f \<noteq> 0 then
                  (\<exists>l. stored_listeners net' = stored_listeners net @ [l]
                        \<and> l_protocol l = snprintf (sizeof_l_protocol h) (if v then ''udp6'' else ''udp''))
                  \<and> listener_count net' = listener_count net + 1
                  \<and> total_listening net' = total_listening net + 1
                else net' = net)
             \<and> connections net' = connections net
             \<and> connection_count net' = connection_count net
             \<and> total_established net' = total_established net"
  proof (cases "state f = 0x07 \<or> local_port f \<noteq> 0")
    case True
    then have st: "state f = 0x07 \<or> local_port f > 0" by (simp add: word_greater_zero_iff)
    from udp_line_store [OF sc st lt ok, of w] obtain l' where
      eq: "udp_line h w v line net =
             Inr (net\<lparr>listeners := (listeners net)[nat (listener_count net) := l'],
                      listener_count := listener_count net + 1,
                      total_listening := total_listening net + 1,
                      unusual_port_count :=
                        (if \<not> is_common_port (ucast (local_port f))
                         then unusual_port_count net + 1 else unusual_port_count net)\<rparr>)"
      and pr: "l_protocol l' = snprintf (sizeof_l_protocol h) (if v then ''udp6'' else ''udp'')"
      by blast
    note sl = stored_listeners_update [OF ok lt, where l' = l']
    have c1: "(state f = 0x07 \<or> local_port f \<noteq> 0) = True" using True by simp
    have lp: "udp_loop h w v (line # rest) net =
               udp_loop h w v rest (net\<lparr>listeners := (listeners net)[nat (listener_count net) := l'],
                      listener_count := listener_count net + 1,
                      total_listening := total_listening net + 1,
                      unusual_port_count :=
                        (if \<not> is_common_port (ucast (local_port f))
                         then unusual_port_count net + 1 else unusual_port_count net)\<rparr>)"
      using lt by (simp add: eq)
    show ?thesis
      unfolding eq c1 if_True
      by (intro exI [of _ "net\<lparr>listeners := (listeners net)[nat (listener_count net) := l'],
                      listener_count := listener_count net + 1,
                      total_listening := total_listening net + 1,
                      unusual_port_count :=
                        (if \<not> is_common_port (ucast (local_port f))
                         then unusual_port_count net + 1 else unusual_port_count net)\<rparr>"]
                conjI refl exI [of _ l'] sl pr lp)
         simp_all
  next
    case False
    then have st: "\<not> (state f = 0x07 \<or> local_port f > 0)" by (simp add: word_greater_zero_iff)
    have c1: "(state f = 0x07 \<or> local_port f \<noteq> 0) = False" using False by simp
    have eq: "udp_line h w v line net = Inr net" by (rule udp_line_other [OF sc st])
    have lp: "udp_loop h w v (line # rest) net = udp_loop h w v rest net"
      using lt by (simp add: eq)
    show ?thesis
      unfolding eq c1 if_False
      by (intro exI [of _ net] conjI refl lp)
  qed
next
  assume "\<not> listener_count net < int (MAX_LISTENERS h)"
  then show "udp_loop h w v (line # rest) net = Inr net" by simp
next
  show "\<exists>net2. parse_udp_file h w filename net v = Inr (file_status w filename, net2)
            \<and> connections net2 = connections net
            \<and> connection_count net2 = connection_count net
            \<and> total_established net2 = total_established net"
    by (rule parse_udp_file_total [OF ok])
qed

theorem udp_line_classification_witness:
  "sscanf_line False udp_conn_line = Some udp_conn_rec
   \<and> net_ok sample_h (memset_zero sample_h stale_net)
   \<and> listener_count (memset_zero sample_h stale_net) < int (MAX_LISTENERS sample_h)
   \<and> state udp_conn_rec = 0x01 \<and> local_port udp_conn_rec = 9999
   \<and> (\<exists>net'. udp_line sample_h sample_world False udp_conn_line (memset_zero sample_h stale_net)
                 = Inr net'
          \<and> listener_count net' = 1 \<and> total_listening net' = 1
          \<and> connection_count net' = 0 \<and> total_established net' = 0)"
proof -
  have lt: "listener_count (memset_zero sample_h stale_net) < int (MAX_LISTENERS sample_h)"
    by (simp add: sample_zero_counts)
  have r: "state udp_conn_rec = 0x01" "local_port udp_conn_rec = 9999"
    by (simp_all add: udp_conn_rec_def)
  from udp_line_classification [OF scan_udp_conn_line memset_zero_ok [of sample_h stale_net],
          where w = sample_world] lt
  show ?thesis
    by (auto simp add: scan_udp_conn_line memset_zero_ok sample_zero_counts r)
qed

text \<open>
  C4. A port is classified common exactly when it is one of 22, 25, 53, 80, 110, 143,
  443, 465, 587, 993, 995, 3306, 5432, 6379, 8080, 8443, 27017 or at least 32768; so 22 is
  common, 31337 unusual and 40000 common. When a parser stores a listener it adds one to
  the unusual-port counter exactly when the port of the record, passed as \<^verbatim>\<open>uint16_t\<close>, is
  not common.
\<close>

theorem is_common_port_classifies:
  "(is_common_port p \<longleftrightarrow>
      p \<in> {22, 25, 53, 80, 110, 143, 443, 465, 587, 993, 995,
           3306, 5432, 6379, 8080, 8443, 27017} \<or> p \<ge> 32768)
   \<and> is_common_port 22 \<and> \<not> is_common_port 31337 \<and> is_common_port 40000
   \<and> (sscanf_line v line = Some f \<and> net_ok h net \<and> listener_count net < int (MAX_LISTENERS h) \<longrightarrow>
        (state f = 0x0A \<longrightarrow>
           (\<exists>net'. tcp_line h w v line net = Inr net'
              \<and> listener_count net' = listener_count net + 1
              \<and> unusual_port_count net'
                  = unusual_port_count net + (if is_common_port (ucast (local_port f)) then 0 else 1)))
        \<and> (state f = 0x07 \<or> local_port f \<noteq> 0 \<longrightarrow>
           (\<exists>net'. udp_line h w v line net = Inr net'
              \<and> listener_count net' = listener_count net + 1
              \<and> unusual_port_count net'
                  = unusual_port_count net + (if is_common_port (ucast (local_port f)) then 0 else 1))))"
proof (intro conjI impI)
  show "is_common_port p \<longleftrightarrow>
      p \<in> {22, 25, 53, 80, 110, 143, 443, 465, 587, 993, 995,
           3306, 5432, 6379, 8080, 8443, 27017} \<or> p \<ge> 32768"
    by (rule is_common_port_iff)
  show "is_common_port 22" "\<not> is_common_port 31337" "is_common_port 40000"
    by (simp_all add: is_common_port_iff)
next
  assume a: "sscanf_line v line = Some f \<and> net_ok h net \<and> listener_count net < int (MAX_LISTENERS h)"
    and st: "state f = 0x0A"
  from a have sc: "sscanf_line v line = Some f" and ok: "net_ok h net"
    and lt: "listener_count net < int (MAX_LISTENERS h)" by simp_all
  from tcp_line_listen [OF sc st lt ok, of w] obtain l' where
    "tcp_line h w v line net =
           Inr (net\<lparr>listeners := (listeners net)[nat (listener_count net) := l'],
                    listener_count := listener_count net + 1,
                    total_listening := total_listening net + 1,
                    unusual_port_count :=
                      (if \<not> is_common_port (ucast (local_port f))
                       then unusual_port_count net + 1 else unusual_port_count net)\<rparr>)"
    by blast
  then show "\<exists>net'. tcp_line h w v line net = Inr net'
              \<and> listener_count net' = listener_count net + 1
              \<and> unusual_port_count net'
                  = unusual_port_count net + (if is_common_port (ucast (local_port f)) then 0 else 1)"
    by simp
next
  assume a: "sscanf_line v line = Some f \<and> net_ok h net \<and> listener_count net < int (MAX_LISTENERS h)"
    and st: "state f = 0x07 \<or> local_port f \<noteq> 0"
  from a have sc: "sscanf_line v line = Some f" and ok: "net_ok h net"
    and lt: "listener_count net < int (MAX_LISTENERS h)" by simp_all
  from st have st': "state f = 0x07 \<or> local_port f > 0" by (simp add: word_greater_zero_iff)
  from udp_line_store [OF sc st' lt ok, of w] obtain l' where
    "udp_line h w v line net =
           Inr (net\<lparr>listeners := (listeners net)[nat (listener_count net) := l'],
                    listener_count := listener_count net + 1,
                    total_listening := total_listening net + 1,
                    unusual_port_count :=
                      (if \<not> is_common_port (ucast (local_port f))
                       then unusual_port_count net + 1 else unusual_port_count net)\<rparr>)"
    by blast
  then show "\<exists>net'. udp_line h w v line net = Inr net'
              \<and> listener_count net' = listener_count net + 1
              \<and> unusual_port_count net'
                  = unusual_port_count net + (if is_common_port (ucast (local_port f)) then 0 else 1)"
    by simp
qed

theorem is_common_port_classifies_witness:
  "sscanf_line False udp_conn_line = Some udp_conn_rec
   \<and> net_ok sample_h (memset_zero sample_h stale_net)
   \<and> listener_count (memset_zero sample_h stale_net) < int (MAX_LISTENERS sample_h)
   \<and> local_port udp_conn_rec = 9999
   \<and> \<not> is_common_port 9999
   \<and> (\<exists>net'. udp_line sample_h sample_world False udp_conn_line (memset_zero sample_h stale_net) = Inr net'
          \<and> listener_count net' = 1 \<and> unusual_port_count net' = 1)"
proof -
  have sc: "sscanf_line False udp_conn_line = Some udp_conn_rec" by (rule scan_udp_conn_line)
  have ok: "net_ok sample_h (memset_zero sample_h stale_net)" by (rule memset_zero_ok)
  have lt: "listener_count (memset_zero sample_h stale_net) < int (MAX_LISTENERS sample_h)"
    by (simp add: sample_zero_counts)
  have port: "local_port udp_conn_rec = 9999" by (simp add: udp_conn_rec_def)
  from is_common_port_classifies [of 9999 False udp_conn_line udp_conn_rec sample_h
      "memset_zero sample_h stale_net" sample_world] sc ok lt port
  show ?thesis
    by (auto simp add: sample_zero_counts)
qed

text \<open>
  C5. For an IPv4 address of eight hexadecimal digits \<^verbatim>\<open>hex_to_ip\<close> reads the digits as an
  unsigned integer \<open>v\<close> and prints \<^verbatim>\<open>(v & 0xFF).(v>>8 & 0xFF).(v>>16 & 0xFF).(v>>24 & 0xFF)\<close>,
  the least significant byte first; \<^verbatim>\<open>0100007F\<close> decodes to \<^verbatim>\<open>127.0.0.1\<close>. For IPv6 the
  hexadecimal string is passed through as it is. The buffer has to hold the text: 16
  bytes for a dotted quad, one byte more than the string for IPv6.
\<close>

theorem hex_to_ip_decodes:
  "(length hex = 8 \<and> list_all isxdigit hex \<and> 16 \<le> ip_len \<longrightarrow>
      hex_to_ip hex ip_len False =
        Inr (show_nat (unat ((word_of_nat (digits_val 16 hex) :: 32 word) AND 0xFF)) @ ''.'' @
             show_nat (unat (drop_bit 8 (word_of_nat (digits_val 16 hex) :: 32 word) AND 0xFF)) @ ''.'' @
             show_nat (unat (drop_bit 16 (word_of_nat (digits_val 16 hex) :: 32 word) AND 0xFF)) @ ''.'' @
             show_nat (unat (drop_bit 24 (word_of_nat (digits_val 16 hex) :: 32 word) AND 0xFF))))
   \<and> (16 \<le> ip_len \<longrightarrow> hex_to_ip ''0100007F'' ip_len False = Inr ''127.0.0.1'')
   \<and> (length hex < ip_len \<longrightarrow> hex_to_ip hex ip_len True = Inr hex)"
proof (intro conjI impI)
  assume a: "length hex = 8 \<and> list_all isxdigit hex \<and> 16 \<le> ip_len"
  then have ne: "hex \<noteq> []" by auto
  from a have sc: "scan_hex hex = Some (word_of_nat (digits_val 16 hex), [])"
    by (intro scan_hex_value ne) simp_all
  let ?v = "word_of_nat (digits_val 16 hex) :: 32 word"
  let ?q = "show_nat (unat (?v AND 0xFF)) @ ''.'' @
             show_nat (unat (drop_bit 8 ?v AND 0xFF)) @ ''.'' @
             show_nat (unat (drop_bit 16 ?v AND 0xFF)) @ ''.'' @
             show_nat (unat (drop_bit 24 ?v AND 0xFF))"
  have "length ?q \<le> 15" by (rule dotted_quad_fits)
  with a have "length ?q < ip_len" by linarith
  then have fits: "snprintf ip_len ?q = ?q" by (rule snprintf_fits)
  show "hex_to_ip hex ip_len False =
        Inr (show_nat (unat (?v AND 0xFF)) @ ''.'' @
             show_nat (unat (drop_bit 8 ?v AND 0xFF)) @ ''.'' @
             show_nat (unat (drop_bit 16 ?v AND 0xFF)) @ ''.'' @
             show_nat (unat (drop_bit 24 ?v AND 0xFF)))"
    unfolding hex_to_ip_def by (simp only: sc fits if_False option.case prod.case)
next
  assume "16 \<le> ip_len"
  moreover have "scan_hex ''0100007F'' = Some (0x0100007F, [])"
    by (simp add: scan_hex_def skip_ws_def scan_sign_def isspace_def isxdigit_def isdigit_def
          strtoul_value_def digits_val_def digit_val_def)
  moreover have "snprintf ip_len ''127.0.0.1'' = ''127.0.0.1''"
    using \<open>16 \<le> ip_len\<close> by (intro snprintf_fits) simp
  ultimately show "hex_to_ip ''0100007F'' ip_len False = Inr ''127.0.0.1''"
    by (simp add: hex_to_ip_def show_nat.simps)
next
  assume "length hex < ip_len"
  then show "hex_to_ip hex ip_len True = Inr hex"
    by (simp add: hex_to_ip_def snprintf_def)
qed

theorem hex_to_ip_decodes_witness:
  "hex_to_ip ''0101A8C0'' 64 False = Inr ''192.168.1.1''
   \<and> hex_to_ip ''0100007F'' 64 False = Inr ''127.0.0.1''
   \<and> hex_to_ip (local_addr_hex tcp6_listen_rec) 64 True
        = Inr ''00000000000000000000000001000000''"
  using hex_to_ip_decodes [of "''0101A8C0''" 64]
    hex_to_ip_decodes [of "local_addr_hex tcp6_listen_rec" 64]
  by (simp add: isxdigit_def isdigit_def digits_val_def digit_val_def show_nat.simps
        tcp6_listen_rec_def)

text \<open>
  C6. \<^verbatim>\<open>find_pid_for_inode\<close> returns 0 when \<^verbatim>\<open>/proc\<close> cannot be listed; otherwise it
  returns the number of the first entry of \<^verbatim>\<open>/proc\<close>, in the order of the listing, whose
  name starts with a digit and which holds a link to \<^verbatim>\<open>socket:[inode]\<close>, and 0 when
  there is none. A record whose owner is not found is stored, as a listener or as a
  connection, with pid 0 and the process name \<^verbatim>\<open>[kernel]\<close>; nothing fails. The name
  buffers have to hold the nine bytes of that name.
\<close>

theorem find_pid_for_inode_first_owner:
  "find_pid_for_inode w ino =
     (case opendir w ''/proc'' of
        None \<Rightarrow> 0
      | Some entries \<Rightarrow>
          (case List.find (\<lambda>d. numeric_entry d \<and> holds_socket w ino d) entries of
             None \<Rightarrow> 0
           | Some d \<Rightarrow> atoi d))
   \<and> (sscanf_line v line = Some f \<and> net_ok h net \<and> find_pid_for_inode w (inode f) = 0
        \<and> 9 \<le> sizeof_l_process_name h \<and> 9 \<le> sizeof_c_process_name h \<longrightarrow>
        (state f = 0x0A \<and> listener_count net < int (MAX_LISTENERS h) \<longrightarrow>
           (\<exists>net' l. tcp_line h w v line net = Inr net'
              \<and> stored_listeners net' = stored_listeners net @ [l]
              \<and> l_pid l = 0 \<and> l_process_name l = ''[kernel]''))
        \<and> (state f = 0x01 \<and> connection_count net < int (MAX_CONNECTIONS h) \<longrightarrow>
           (\<exists>net' c. tcp_line h w v line net = Inr net'
              \<and> stored_connections net' = stored_connections net @ [c]
              \<and> c_pid c = 0 \<and> c_process_name c = ''[kernel]''))
        \<and> ((state f = 0x07 \<or> local_port f \<noteq> 0) \<and> listener_count net < int (MAX_LISTENERS h) \<longrightarrow>
           (\<exists>net' l. udp_line h w v line net = Inr net'
              \<and> stored_listeners net' = stored_listeners net @ [l]
              \<and> l_pid l = 0 \<and> l_process_name l = ''[kernel]'')))"
proof (intro conjI impI)
  show "find_pid_for_inode w ino =
     (case opendir w ''/proc'' of
        None \<Rightarrow> 0
      | Some entries \<Rightarrow>
          (case List.find (\<lambda>d. numeric_entry d \<and> holds_socket w ino d) entries of
             None \<Rightarrow> 0
           | Some d \<Rightarrow> atoi d))"
    by (rule find_pid_for_inode_find)
next
  assume a: "sscanf_line v line = Some f \<and> net_ok h net \<and> find_pid_for_inode w (inode f) = 0
        \<and> 9 \<le> sizeof_l_process_name h \<and> 9 \<le> sizeof_c_process_name h"
    and b: "state f = 0x0A \<and> listener_count net < int (MAX_LISTENERS h)"
  from a have sc: "sscanf_line v line = Some f" and ok: "net_ok h net"
    and no: "find_pid_for_inode w (inode f) = 0" and sz: "9 \<le> sizeof_l_process_name h"
    by simp_all
  from b have st: "state f = 0x0A" and lt: "listener_count net < int (MAX_LISTENERS h)"
    by simp_all
  from tcp_line_listen [OF sc st lt ok, of w] obtain l' where
    eq: "tcp_line h w v line net =
           Inr (net\<lparr>listeners := (listeners net)[nat (listener_count net) := l'],
                    listener_count := listener_count net + 1,
                    total_listening := total_listening net + 1,
                    unusual_port_count :=
                      (if \<not> is_common_port (ucast (local_port f))
                       then unusual_port_count net + 1 else unusual_port_count net)\<rparr>)"
    and pid: "l_pid l' = find_pid_for_inode w (inode f)"
    and name: "l_process_name l' =
              (if find_pid_for_inode w (inode f) > 0
               then get_process_name w (find_pid_for_inode w (inode f))
                      (l_process_name (listeners net ! nat (listener_count net)))
                      (sizeof_l_process_name h)
               else snprintf (sizeof_l_process_name h) ''[kernel]'')"
    by blast
  from pid name no sz have "l_pid l' = 0" "l_process_name l' = ''[kernel]''"
    by (simp_all add: kernel_fits)
  with eq stored_listeners_update [OF ok lt, where l' = l']
  show "\<exists>net' l. tcp_line h w v line net = Inr net'
              \<and> stored_listeners net' = stored_listeners net @ [l]
              \<and> l_pid l = 0 \<and> l_process_name l = ''[kernel]''"
    by blast
next
  assume a: "sscanf_line v line = Some f \<and> net_ok h net \<and> find_pid_for_inode w (inode f) = 0
        \<and> 9 \<le> sizeof_l_process_name h \<and> 9 \<le> sizeof_c_process_name h"
    and b: "state f = 0x01 \<and> connection_count net < int (MAX_CONNECTIONS h)"
  from a have sc: "sscanf_line v line = Some f" and ok: "net_ok h net"
    and no: "find_pid_for_inode w (inode f) = 0" and sz: "9 \<le> sizeof_c_process_name h"
    by simp_all
  from b have st: "state f = 0x01" and lt: "connection_count net < int (MAX_CONNECTIONS h)"
    by simp_all
  from tcp_line_estab [OF sc st lt ok, of w] obtain c' where
    eq: "tcp_line h w v line net =
           Inr (net\<lparr>connections := (connections net)[nat (connection_count net) := c'],
                    connection_count := connection_count net + 1,
                    total_established := total_established net + 1\<rparr>)"
    and pid: "c_pid c' = find_pid_for_inode w (inode f)"
    and name: "c_process_name c' =
              (if find_pid_for_inode w (inode f) > 0
               then get_process_name w (find_pid_for_inode w (inode f))
                      (c_process_name (connections net ! nat (connection_count net)))
                      (sizeof_c_process_name h)
               else snprintf (sizeof_c_process_name h) ''[kernel]'')"
    by blast
  from pid name no sz have "c_pid c' = 0" "c_process_name c' = ''[kernel]''"
    by (simp_all add: kernel_fits)
  with eq stored_connections_update [OF ok lt, where c' = c']
  show "\<exists>net' c. tcp_line h w v line net = Inr net'
              \<and> stored_connections net' = stored_connections net @ [c]
              \<and> c_pid c = 0 \<and> c_process_name c = ''[kernel]''"
    by blast
next
  assume a: "sscanf_line v line = Some f \<and> net_ok h net \<and> find_pid_for_inode w (inode f) = 0
        \<and> 9 \<le> sizeof_l_process_name h \<and> 9 \<le> sizeof_c_process_name h"
    and b: "(state f = 0x07 \<or> local_port f \<noteq> 0) \<and> listener_count net < int (MAX_LISTENERS h)"
  from a have sc: "sscanf_line v line = Some f" and ok: "net_ok h net"
    and no: "find_pid_for_inode w (inode f) = 0" and sz: "9 \<le> sizeof_l_process_name h"
    by simp_all
  from b have st: "state f = 0x07 \<or> local_port f > 0"
    and lt: "listener_count net < int (MAX_LISTENERS h)"
    by (simp_all add: word_greater_zero_iff)
  from udp_line_store [OF sc st lt ok, of w] obtain l' where
    eq: "udp_line h w v line net =
           Inr (net\<lparr>listeners := (listeners net)[nat (listener_count net) := l'],
                    listener_count := listener_count net + 1,
                    total_listening := total_listening net + 1,
                    unusual_port_count :=
                      (if \<not> is_common_port (ucast (local_port f))
                       then unusual_port_count net + 1 else unusual_port_count net)\<rparr>)"
    and pid: "l_pid l' = find_pid_for_inode w (inode f)"
    and name: "l_process_name l' =
              (if find_pid_for_inode w (inode f) > 0
               then get_process_name w (find_pid_for_inode w (inode f))
                      (l_process_name (listeners net ! nat (listener_count net)))
                      (sizeof_l_process_name h)
               else snprintf (sizeof_l_process_name h) ''[kernel]'')"
    by blast
  from pid name no sz have "l_pid l' = 0" "l_process_name l' = ''[kernel]''"
    by (simp_all add: kernel_fits)
  with eq stored_listeners_update [OF ok lt, where l' = l']
  show "\<exists>net' l. udp_line h w v line net = Inr net'
              \<and> stored_listeners net' = stored_listeners net @ [l]
              \<and> l_pid l = 0 \<and> l_process_name l = ''[kernel]''"
    by blast
qed

theorem find_pid_for_inode_first_owner_witness:
  "find_pid_for_inode sample_world 12345 = 500
   \<and> sscanf_line False tcp_estab_line = Some tcp_estab_rec
   \<and> net_ok sample_h (memset_zero sample_h stale_net)
   \<and> find_pid_for_inode sample_world (inode tcp_estab_rec) = 0
   \<and> state tcp_estab_rec = 0x01
   \<and> (\<exists>net' c. tcp_line sample_h sample_world False tcp_estab_line (memset_zero sample_h stale_net)
                   = Inr net'
          \<and> stored_connections net' = [c] \<and> c_pid c = 0 \<and> c_process_name c = ''[kernel]'')"
proof -
  have r: "inode tcp_estab_rec = 23456" "state tcp_estab_rec = 0x01"
    by (simp_all add: tcp_estab_rec_def)
  have sz: "9 \<le> sizeof_l_process_name sample_h" "9 \<le> sizeof_c_process_name sample_h"
    by (simp_all add: sample_h_def)
  from find_pid_for_inode_first_owner [of sample_world 12345 False tcp_estab_line tcp_estab_rec
         sample_h "memset_zero sample_h stale_net"]
  show ?thesis
    by (simp add: find_pid_envoy find_pid_nobody scan_tcp_estab_line memset_zero_ok r sz
          sample_zero_counts stored_zero)
qed

text \<open>
  C7. A probe always returns 0 and a structure: each of the four parsers runs, on the
  structure the one before it left, and returns. A parser whose file does not open
  returns \<open>-1\<close> and leaves the structure as it was.
\<close>

theorem probe_network_reads_every_source:
  "(\<exists>net1 net2 net3 net4.
      parse_tcp_file h w ''/proc/net/tcp'' (memset_zero h net) False
        = Inr (file_status w ''/proc/net/tcp'', net1)
      \<and> parse_tcp_file h w ''/proc/net/tcp6'' net1 True
        = Inr (file_status w ''/proc/net/tcp6'', net2)
      \<and> parse_udp_file h w ''/proc/net/udp'' net2 False
        = Inr (file_status w ''/proc/net/udp'', net3)
      \<and> parse_udp_file h w ''/proc/net/udp6'' net3 True
        = Inr (file_status w ''/proc/net/udp6'', net4)
      \<and> probe_network h w net = Inr (0, net4))
   \<and> (fopen w filename = None \<longrightarrow>
        file_status w filename = - 1
        \<and> parse_tcp_file h w filename n v = Inr (- 1, n)
        \<and> parse_udp_file h w filename n v = Inr (- 1, n))"
proof (intro conjI impI)
  from probe_network_chain [of h w net]
  show "\<exists>net1 net2 net3 net4.
      parse_tcp_file h w ''/proc/net/tcp'' (memset_zero h net) False
        = Inr (file_status w ''/proc/net/tcp'', net1)
      \<and> parse_tcp_file h w ''/proc/net/tcp6'' net1 True
        = Inr (file_status w ''/proc/net/tcp6'', net2)
      \<and> parse_udp_file h w ''/proc/net/udp'' net2 False
        = Inr (file_status w ''/proc/net/udp'', net3)
      \<and> parse_udp_file h w ''/proc/net/udp6'' net3 True
        = Inr (file_status w ''/proc/net/udp6'', net4)
      \<and> probe_network h w net = Inr (0, net4)"
    by blast
qed (simp_all add: parse_file_unavailable)

theorem probe_network_reads_every_source_witness:
  "fopen sample_world ''/proc/net/tcp6'' = None
   \<and> fopen sample_world ''/proc/net/udp6'' = None
   \<and> parse_tcp_file sample_h sample_world ''/proc/net/tcp6''
         (holding [envoy_listener] [peer_connection] 0) True
       = Inr (- 1, holding [envoy_listener] [peer_connection] 0)
   \<and> parse_udp_file sample_h sample_world ''/proc/net/udp6''
         (holding [envoy_listener, dns_listener, stray_listener] [peer_connection] 1) True
       = Inr (- 1, holding [envoy_listener, dns_listener, stray_listener] [peer_connection] 1)
   \<and> probe_network sample_h sample_world stale_net
       = Inr (0, holding [envoy_listener, dns_listener, stray_listener] [peer_connection] 1)"
  using probe_network_reads_every_source [where h = sample_h and w = sample_world
      and filename = "''/proc/net/tcp6''" and v = True
      and n = "holding [envoy_listener] [peer_connection] 0"]
    probe_network_reads_every_source [where h = sample_h and w = sample_world
      and filename = "''/proc/net/udp6''" and v = True
      and n = "holding [envoy_listener, dns_listener, stray_listener] [peer_connection] 1"]
  by (simp add: sample_fopen probe_sample_world)

text \<open>
  C8. A line after the header that \<^verbatim>\<open>sscanf\<close> does not convert into the six values is
  skipped: the body of either loop leaves the structure as it is, and either loop gives
  the same result with the line as without it.
\<close>

theorem malformed_line_skipped:
  assumes "sscanf_line v bad = None"
  shows "tcp_line h w v bad net = Inr net
     \<and> udp_line h w v bad net = Inr net
     \<and> tcp_loop h w v (pre @ bad # post) net = tcp_loop h w v (pre @ post) net
     \<and> udp_loop h w v (pre @ bad # post) net = udp_loop h w v (pre @ post) net"
  using assms by (simp add: tcp_line_skip udp_line_skip tcp_loop_skip udp_loop_skip)

theorem malformed_line_skipped_witness:
  "sscanf_line False bad_line = None
   \<and> tcp_line sample_h sample_world False bad_line (listening 1) = Inr (listening 1)
   \<and> tcp_loop sample_h sample_world False [tcp_listen_line, bad_line] (listening 0)
       = Inr (listening 1)
   \<and> tcp_loop sample_h sample_world False [bad_line, tcp_listen_line, bad_line, bad_line] (listening 0)
       = Inr (listening 1)"
proof -
  note m = malformed_line_skipped [OF scan_bad_line, of sample_h sample_world]
  have one: "tcp_loop sample_h sample_world False [tcp_listen_line] (listening 0) = Inr (listening 1)"
    using tcp_loop_listening [of 0 1] by simp
  have a: "tcp_loop sample_h sample_world False [tcp_listen_line, bad_line] (listening 0)
            = Inr (listening 1)"
    using m [of "listening 0" "[tcp_listen_line]" "[]"] one by simp
  have "tcp_loop sample_h sample_world False [bad_line, tcp_listen_line, bad_line, bad_line] (listening 0)
          = tcp_loop sample_h sample_world False [tcp_listen_line, bad_line, bad_line] (listening 0)"
    using m [of "listening 0" "[]" "[tcp_listen_line, bad_line, bad_line]"] by simp
  also have "\<dots> = tcp_loop sample_h sample_world False [tcp_listen_line, bad_line] (listening 0)"
    using m [of "listening 0" "[tcp_listen_line]" "[bad_line]"] by simp
  finally have b: "tcp_loop sample_h sample_world False [bad_line, tcp_listen_line, bad_line, bad_line] (listening 0)
          = Inr (listening 1)"
    using a by simp
  from m [of "listening 1" "[]" "[]"] a b show ?thesis
    by (simp add: scan_bad_line)
qed

text \<open>
  C9. The result of a probe does not depend on what the structure held before, and a
  probe run on the result of a probe over the same files gives that result again.
\<close>

theorem probe_network_idempotent:
  "probe_network h w net1 = probe_network h w net2
   \<and> (\<exists>net'. probe_network h w net1 = Inr (0, net') \<and> probe_network h w net' = Inr (0, net'))"
proof -
  have eq: "probe_network h w a = probe_network h w b" for a b
    by (simp add: probe_network_def memset_zero_def)
  from probe_network_summary [of h w net1] obtain net' where
    p: "probe_network h w net1 = Inr (0, net')" by blast
  from p eq [of net' net1] have q: "probe_network h w net' = Inr (0, net')" by simp
  from p q have "\<exists>net'. probe_network h w net1 = Inr (0, net') \<and> probe_network h w net' = Inr (0, net')"
    by blast
  with eq [of net1 net2] show ?thesis by (rule conjI)
qed

text \<open>
  C10. Every listener that \<^verbatim>\<open>parse_udp_file\<close> stores has the state label \<^verbatim>\<open>LISTEN\<close>,
  whatever the state of its record: also a record stored for its non-zero port alone,
  with a state other than 7. The state buffer has to hold the seven bytes of the label.
\<close>

theorem udp_listener_state_label:
  assumes ok: "net_ok h net" and sz: "7 \<le> sizeof_l_state h"
  shows "(\<exists>net'. parse_udp_file h w filename net v = Inr (file_status w filename, net')
            \<and> listener_count net \<le> listener_count net'
            \<and> (\<forall>i. nat (listener_count net) \<le> i \<and> i < nat (listener_count net')
                  \<longrightarrow> l_state (listeners net' ! i) = ''LISTEN''))
     \<and> (sscanf_line v line = Some f \<and> state f \<noteq> 0x07 \<and> local_port f \<noteq> 0
          \<and> listener_count net < int (MAX_LISTENERS h) \<longrightarrow>
          (\<exists>net' l. udp_line h w v line net = Inr net'
             \<and> stored_listeners net' = stored_listeners net @ [l]
             \<and> l_state l = ''LISTEN''))"
proof (intro conjI impI)
  from udp_loop_slots [OF ok, of w v "table_lines w filename"] obtain net' where
    lp: "udp_loop h w v (table_lines w filename) net = Inr net'"
    and mono: "listener_count net \<le> listener_count net'"
    and new: "\<forall>i. nat (listener_count net) \<le> i \<and> i < nat (listener_count net')
                 \<longrightarrow> l_state (listeners net' ! i) = snprintf (sizeof_l_state h) ''LISTEN''"
    by blast
  from lp have "parse_udp_file h w filename net v = Inr (file_status w filename, net')"
    by (simp add: parse_udp_file_loop)
  with mono new show "\<exists>net'. parse_udp_file h w filename net v = Inr (file_status w filename, net')
            \<and> listener_count net \<le> listener_count net'
            \<and> (\<forall>i. nat (listener_count net) \<le> i \<and> i < nat (listener_count net')
                  \<longrightarrow> l_state (listeners net' ! i) = ''LISTEN'')"
    by (auto simp add: listen_fits [OF sz])
next
  assume a: "sscanf_line v line = Some f \<and> state f \<noteq> 0x07 \<and> local_port f \<noteq> 0
          \<and> listener_count net < int (MAX_LISTENERS h)"
  then have sc: "sscanf_line v line = Some f" and st: "state f = 0x07 \<or> local_port f > 0"
    and lt: "listener_count net < int (MAX_LISTENERS h)"
    by (simp_all add: word_greater_zero_iff)
  from udp_line_store [OF sc st lt ok, of w] obtain l' where
    eq: "udp_line h w v line net =
           Inr (net\<lparr>listeners := (listeners net)[nat (listener_count net) := l'],
                    listener_count := listener_count net + 1,
                    total_listening := total_listening net + 1,
                    unusual_port_count :=
                      (if \<not> is_common_port (ucast (local_port f))
                       then unusual_port_count net + 1 else unusual_port_count net)\<rparr>)"
    and ls: "l_state l' = snprintf (sizeof_l_state h) ''LISTEN''"
    by blast
  from ls have "l_state l' = ''LISTEN''" by (simp add: listen_fits [OF sz])
  with eq stored_listeners_update [OF ok lt, where l' = l']
  show "\<exists>net' l. udp_line h w v line net = Inr net'
             \<and> stored_listeners net' = stored_listeners net @ [l]
             \<and> l_state l = ''LISTEN''"
    by blast
qed

theorem udp_listener_state_label_witness:
  "net_ok sample_h (memset_zero sample_h stale_net)
   \<and> 7 \<le> sizeof_l_state sample_h
   \<and> sscanf_line False udp_conn_line = Some udp_conn_rec
   \<and> state udp_conn_rec = 0x01
   \<and> local_port udp_conn_rec = 9999
   \<and> (\<exists>net' l. udp_line sample_h sample_world False udp_conn_line (memset_zero sample_h stale_net)
                   = Inr net'
          \<and> stored_listeners net' = [l] \<and> l_state l = ''LISTEN'')
   \<and> (\<exists>net'. parse_udp_file sample_h sample_world ''/proc/net/udp'' (memset_zero sample_h stale_net) False
                 = Inr (0, net')
          \<and> listener_count net' = 2
          \<and> l_state (listeners net' ! 0) = ''LISTEN''
          \<and> l_state (listeners net' ! 1) = ''LISTEN'')"
proof -
  have ok: "net_ok sample_h (memset_zero sample_h stale_net)" by (rule memset_zero_ok)
  have sz: "7 \<le> sizeof_l_state sample_h" by (simp add: sample_h_def)
  have r: "state udp_conn_rec = 0x01" "local_port udp_conn_rec = 9999"
    by (simp_all add: udp_conn_rec_def)
  note t = udp_listener_state_label [OF ok sz, where w = sample_world and v = False
      and filename = "''/proc/net/udp''" and line = udp_conn_line and f = udp_conn_rec]
  from t have step: "\<exists>net' l. udp_line sample_h sample_world False udp_conn_line (memset_zero sample_h stale_net)
                   = Inr net'
          \<and> stored_listeners net' = [l] \<and> l_state l = ''LISTEN''"
    by (simp add: scan_udp_conn_line r sample_zero_counts stored_zero)
  from t obtain net' where
    p: "parse_udp_file sample_h sample_world ''/proc/net/udp'' (memset_zero sample_h stale_net) False
          = Inr (file_status sample_world ''/proc/net/udp'', net')"
    and new: "\<forall>i. nat (listener_count (memset_zero sample_h stale_net)) \<le> i \<and> i < nat (listener_count net')
                  \<longrightarrow> l_state (listeners net' ! i) = ''LISTEN''"
    by blast
  have fs: "file_status sample_world ''/proc/net/udp'' = 0"
    by (simp add: file_status_def sample_fopen read_lines_udp_text)
  from parse_udp_file_summary [OF summary_memset_zero, where w = sample_world
      and filename = "''/proc/net/udp''" and v = False and h = sample_h and net1 = stale_net] p
  have "summary sample_h net' (filter udp_listener (table_records sample_world ''/proc/net/udp'' False)) []"
    by auto
  then have cnt: "listener_count net' = 2"
    by (simp add: summary_def sample_table_records udp_listener_def udp_unconn_rec_def
          udp_conn_rec_def sample_h_def)
  from new cnt have "l_state (listeners net' ! 0) = ''LISTEN''" "l_state (listeners net' ! 1) = ''LISTEN''"
    by (simp_all add: sample_zero_counts)
  with p fs cnt have whole: "\<exists>net'. parse_udp_file sample_h sample_world ''/proc/net/udp'' (memset_zero sample_h stale_net) False
                 = Inr (0, net')
          \<and> listener_count net' = 2
          \<and> l_state (listeners net' ! 0) = ''LISTEN''
          \<and> l_state (listeners net' ! 1) = ''LISTEN''"
    by auto
  from ok sz r step whole show ?thesis
    by (simp add: scan_udp_conn_line)
qed

end
